theory Spec2Isabelle
  imports Main "HOL-Library.Word"
begin

section \<open>The index of the text-format reader (Source/Readers/ReaderLib/Indexer.h)\<close>

text \<open>
  The development embeds the three structures of \<^verbatim>\<open>Indexer.h\<close> (\<^verbatim>\<open>SequenceDescriptor\<close>,
  \<^verbatim>\<open>ChunkDescriptor\<close>, \<^verbatim>\<open>Index\<close>) and the two mutating members of \<^verbatim>\<open>Index\<close>,
  \<^verbatim>\<open>Reserve\<close> and \<^verbatim>\<open>AddSequence\<close>. Machine integers are words: \<^verbatim>\<open>size_t\<close> is a
  64-bit word, \<^verbatim>\<open>uint32_t\<close> a 32-bit word; additions and subtractions wrap, and every
  \<^verbatim>\<open>static_cast\<close> is a \<open>ucast\<close> or an \<open>of_nat\<close>. A \<^verbatim>\<open>std::vector\<close> is a list. Its
  capacity is not part of the model: \<^verbatim>\<open>shrink_to_fit\<close> changes nothing, \<^verbatim>\<open>reserve\<close> only
  compares its request with \<^verbatim>\<open>max_size()\<close>, and memory never runs out. The \<^verbatim>\<open>std::map\<close> is a
  partial function.
\<close>

type_synonym size_t = "64 word"
type_synonym uint32_t = "32 word"

subsection \<open>Declarations of DataDeserializer.h\<close>

text \<open>
  Modelled from the spec: \<^verbatim>\<open>KeyType\<close> is declared in \<^verbatim>\<open>DataDeserializer.h\<close>, which is not
  among the sources. The spec gives a key two components, a sample-group identifier and a
  sub-sequence identifier; \<^verbatim>\<open>AddSequence\<close> reads the member \<^verbatim>\<open>m_sequence\<close> and uses it as
  the \<^verbatim>\<open>size_t\<close> key of the map.
\<close>

record KeyType =
  m_sequence :: size_t
  m_sample :: uint32_t

text \<open>
  Modelled from the spec: \<^verbatim>\<open>ChunkDescription\<close>, the base of \<^verbatim>\<open>ChunkDescriptor\<close>, is declared
  in \<^verbatim>\<open>DataDeserializer.h\<close> too. \<^verbatim>\<open>AddSequence\<close> uses its members \<^verbatim>\<open>m_id\<close>,
  \<^verbatim>\<open>m_numberOfSamples\<close> and \<^verbatim>\<open>m_numberOfSequences\<close>; the spec calls the last two running
  totals that start at zero. The chunk id has the type \<^verbatim>\<open>ChunkIdType\<close>, "a fixed
  small-integer type" in the spec: an unsigned word whose width \<open>'c\<close> is a parameter of the
  development.
\<close>

record (overloaded) ('c) ChunkDescription =
  m_id :: "'c word"
  m_numberOfSamples :: size_t
  m_numberOfSequences :: size_t

text \<open>
  Modelled from the spec: the macro \<^verbatim>\<open>CHUNKID_MAX\<close> is "the maximum representable chunk-id
  value", the word of width \<open>'c\<close> with every bit set.
\<close>

definition CHUNKID_MAX :: "'c::len word" where
  "CHUNKID_MAX = - 1"

subsection \<open>SequenceDescriptor\<close>

record SequenceDescriptor =
  m_key :: KeyType
  m_numberOfSamples :: uint32_t
  m_chunkOffsetBytes :: uint32_t
  m_byteSize :: uint32_t

text \<open>
  The constructor \<^verbatim>\<open>SequenceDescriptor(key, numberOfSamples)\<close>: offset and size start at 0.
\<close>

definition SequenceDescriptor_ctor :: "KeyType \<Rightarrow> uint32_t \<Rightarrow> SequenceDescriptor" where
  "SequenceDescriptor_ctor key numberOfSamples =
     \<lparr> m_key = key, m_numberOfSamples = numberOfSamples, m_chunkOffsetBytes = 0, m_byteSize = 0 \<rparr>"

definition SequenceOffsetInChunk :: "SequenceDescriptor \<Rightarrow> uint32_t" where
  "SequenceOffsetInChunk sd = m_chunkOffsetBytes sd"

definition SizeInBytes :: "SequenceDescriptor \<Rightarrow> uint32_t" where
  "SizeInBytes sd = SequenceDescriptor.m_byteSize sd"

subsection \<open>ChunkDescriptor\<close>

record (overloaded) ('c) ChunkDescriptor = "'c ChunkDescription" +
  m_sequences :: "SequenceDescriptor list"
  m_offset :: size_t
  m_byteSize :: size_t
  m_firstSamples :: "size_t list"

text \<open>
  The constructor \<^verbatim>\<open>ChunkDescriptor() : ChunkDescription({}), m_byteSize(0), m_offset(0)\<close>:
  the base is value-initialised (id and both totals are 0), the two vectors are empty.
\<close>

definition ChunkDescriptor_ctor :: "('c::len) ChunkDescriptor" where
  "ChunkDescriptor_ctor =
     \<lparr> m_id = 0, m_numberOfSamples = 0, m_numberOfSequences = 0,
       m_sequences = [], m_offset = 0, m_byteSize = 0, m_firstSamples = [] \<rparr>"

subsection \<open>Index\<close>

record (overloaded) ('c) Index =
  m_chunks :: "'c ChunkDescriptor list"
  m_keyToSequenceInChunk :: "size_t \<rightharpoonup> uint32_t \<times> uint32_t"
  m_maxChunkSize :: size_t
  m_primary :: bool
  m_trackFirstSamples :: bool

definition Index_ctor :: "size_t \<Rightarrow> bool \<Rightarrow> bool \<Rightarrow> ('c::len) Index" where
  "Index_ctor chunkSize primary trackFirstSamples =
     \<lparr> m_chunks = [], m_keyToSequenceInChunk = Map.empty, m_maxChunkSize = chunkSize,
       m_primary = primary, m_trackFirstSamples = trackFirstSamples \<rparr>"

text \<open>
  The four messages of \<^verbatim>\<open>RuntimeError\<close> in \<^verbatim>\<open>AddSequence\<close>, in the order of the source, the
  failure of \<^verbatim>\<open>assert(!m_chunks.empty())\<close>, and the \<^verbatim>\<open>std::length_error\<close> of
  \<^verbatim>\<open>m_chunks.reserve\<close> in \<^verbatim>\<open>Reserve\<close>. \<^verbatim>\<open>RuntimeError\<close> throws; the index is
  mutated in place, so what was written before the throw stays written. A failing call
  therefore returns \<open>Inl (e, idx)\<close> with the index as the exception leaves it, and a call
  that returns normally gives \<open>Inr idx\<close>.
\<close>

datatype error =
    SequenceByteSizeOverflow
  | MaximumNumberOfChunksExceeded
  | NumberOfSequencesOverflow
  | ChunkSizeOverflow
  | AssertionFailed
  | LengthError

type_synonym 'c result = "error \<times> 'c Index + 'c Index"

text \<open>
  \<^verbatim>\<open>std::map::insert\<close> keeps the element already stored under an equal key.
\<close>

definition map_insert :: "('k \<rightharpoonup> 'v) \<Rightarrow> 'k \<Rightarrow> 'v \<Rightarrow> ('k \<rightharpoonup> 'v)" where
  "map_insert m k v = (case m k of None \<Rightarrow> m(k \<mapsto> v) | Some old \<Rightarrow> m)"

text \<open>
  Pointers into \<^verbatim>\<open>m_chunks\<close> are positions in the list: \<^verbatim>\<open>&m_chunks.back()\<close> is the
  position of the last element.
\<close>

definition back_ptr :: "'a list \<Rightarrow> nat" where
  "back_ptr xs = length xs - 1"

text \<open>
  Line 100 declares \<^verbatim>\<open>const auto& previousChunk = chunk;\<close> where \<^verbatim>\<open>chunk\<close> is the local
  variable of type \<^verbatim>\<open>ChunkDescriptor*\<close>. \<^verbatim>\<open>auto\<close> is deduced as \<^verbatim>\<open>ChunkDescriptor*\<close>, so
  \<^verbatim>\<open>previousChunk\<close> has the type \<^verbatim>\<open>ChunkDescriptor* const&\<close> and is bound to the variable
  \<^verbatim>\<open>chunk\<close> itself: it is a second name of that variable, not a copy of the pointer stored
  in it. Each use of \<^verbatim>\<open>previousChunk\<close> reads the value that \<^verbatim>\<open>chunk\<close> holds at that moment.
  The model therefore makes \<open>previousChunk\<close> a function of the current value of the variable.
\<close>

definition previousChunk :: "nat \<Rightarrow> nat" where
  "previousChunk chunk = chunk"

text \<open>
  Lines 100 to 107, the body of the \<^verbatim>\<open>if\<close> up to the test of \<^verbatim>\<open>CHUNKID_MAX\<close>. The result
  is the index and the new value of the local variable \<^verbatim>\<open>chunk\<close>.
  \<^item> line 101, \<^verbatim>\<open>previousChunk->m_sequences.shrink_to_fit()\<close>, changes a capacity only;
  \<^item> line 104, \<^verbatim>\<open>m_chunks.push_back({})\<close>;
  \<^item> line 105, \<^verbatim>\<open>chunk = &m_chunks.back()\<close>;
  \<^item> line 106, \<^verbatim>\<open>chunk->m_id = (ChunkIdType)(m_chunks.size() - 1)\<close>;
  \<^item> line 107, \<^verbatim>\<open>chunk->m_offset = previousChunk->m_offset + previousChunk->m_byteSize\<close>,
    where \<^verbatim>\<open>previousChunk\<close> is read after the assignment of line 105.
\<close>

definition OpenChunk :: "('c::len) Index \<Rightarrow> nat \<Rightarrow> 'c Index \<times> nat" where
  "OpenChunk this chunk0 =
     (let chunks1 = m_chunks this @ [ChunkDescriptor_ctor];
          chunk = back_ptr chunks1;
          chunks2 = chunks1[chunk := (chunks1 ! chunk)\<lparr> m_id := of_nat (length chunks1 - 1) \<rparr>];
          chunks3 = chunks2[chunk := (chunks2 ! chunk)
                      \<lparr> m_offset := m_offset (chunks2 ! previousChunk chunk)
                                     + ChunkDescriptor.m_byteSize (chunks2 ! previousChunk chunk) \<rparr>]
      in (this\<lparr> m_chunks := chunks3 \<rparr>, chunk))"

text \<open>
  Lines 114 to 119, the writes to the chunk that \<^verbatim>\<open>chunk\<close> points to: the first-sample
  table gets the sample count as it is before the update (only when
  \<^verbatim>\<open>m_trackFirstSamples\<close> is set), then the three totals are updated in \<^verbatim>\<open>size_t\<close>
  arithmetic, the 32-bit operands widened.
\<close>

definition UpdateTotals ::
  "bool \<Rightarrow> ('c::len) ChunkDescriptor \<Rightarrow> SequenceDescriptor \<Rightarrow> 'c ChunkDescriptor" where
  "UpdateTotals trackFirstSamples c0 sd =
     (let c1 = (if trackFirstSamples
                then c0\<lparr> m_firstSamples := m_firstSamples c0 @ [ChunkDescription.m_numberOfSamples c0] \<rparr>
                else c0);
          c2 = c1\<lparr> ChunkDescriptor.m_byteSize :=
                     ChunkDescriptor.m_byteSize c1 + ucast (SequenceDescriptor.m_byteSize sd) \<rparr>;
          c3 = c2\<lparr> m_numberOfSequences := m_numberOfSequences c2 + 1 \<rparr>
      in c3\<lparr> ChunkDescription.m_numberOfSamples :=
                ChunkDescription.m_numberOfSamples c3
                + ucast (SequenceDescriptor.m_numberOfSamples sd) \<rparr>)"

text \<open>
  Lines 122 to 127, the body of \<^verbatim>\<open>if (!m_primary)\<close>: the location is the pair of the chunk
  id and the number of sequences cast to \<^verbatim>\<open>uint32_t\<close>; the call fails when the cast changed
  the number; otherwise the pair is converted to the map's value type
  \<^verbatim>\<open>std::pair<uint32_t, uint32_t>\<close> and inserted under \<^verbatim>\<open>sd.m_key.m_sequence\<close>.
\<close>

definition RecordLocation :: "('c::len) Index \<Rightarrow> nat \<Rightarrow> SequenceDescriptor \<Rightarrow> 'c result" where
  "RecordLocation this chunk sd =
     (let c = m_chunks this ! chunk;
          location = (m_id c, (of_nat (length (m_sequences c)) :: uint32_t))
      in if unat (snd location) \<noteq> length (m_sequences c)
         then Inl (NumberOfSequencesOverflow, this)
         else
           let sequenceId = m_sequence (m_key sd)
           in Inr (this\<lparr> m_keyToSequenceInChunk :=
                     map_insert (m_keyToSequenceInChunk this) sequenceId
                       (ucast (fst location), snd location) \<rparr>))"

text \<open>
  Lines 114 to 133: the sequence is entered in the chunk that \<^verbatim>\<open>chunk\<close> points to. After
  the totals and the location come, in lines 130 to 132, the offset within the chunk,
  cast to \<^verbatim>\<open>uint32_t\<close>, with the failure when the cast changed it, and in line 133
  \<^verbatim>\<open>chunk->m_sequences.push_back(sd)\<close>.
\<close>

definition StoreSequence ::
  "('c::len) Index \<Rightarrow> nat \<Rightarrow> SequenceDescriptor \<Rightarrow> size_t \<Rightarrow> 'c result" where
  "StoreSequence this chunk sd startOffsetInFile =
     (let c4 = UpdateTotals (m_trackFirstSamples this) (m_chunks this ! chunk) sd;
          this1 = this\<lparr> m_chunks := (m_chunks this)[chunk := c4] \<rparr>
      in case (if \<not> m_primary this1 then RecordLocation this1 chunk sd else Inr this1) of
           Inl failure \<Rightarrow> Inl failure
         | Inr this2 \<Rightarrow>
             let sd1 = sd\<lparr> m_chunkOffsetBytes := ucast (startOffsetInFile - m_offset c4) \<rparr>
             in if ucast (m_chunkOffsetBytes sd1) \<noteq> startOffsetInFile - m_offset c4
                then Inl (ChunkSizeOverflow, this2)
                else Inr (this2\<lparr> m_chunks :=
                            (m_chunks this2)[chunk := c4\<lparr> m_sequences := m_sequences c4 @ [sd1] \<rparr>] \<rparr>))"

text \<open>
  \<^verbatim>\<open>Index::AddSequence\<close>, lines 90 to 134. Lines 92 to 94 set \<^verbatim>\<open>sd.m_byteSize\<close> and fail
  when the cast to \<^verbatim>\<open>uint32_t\<close> changed the size; line 96 is the assertion; line 97 points
  \<^verbatim>\<open>chunk\<close> to the last chunk; line 98 decides whether a chunk is opened; lines 108 to 111
  fail when the vector has more than \<^verbatim>\<open>CHUNKID_MAX\<close> elements.
\<close>

definition AddSequence ::
  "('c::len) Index \<Rightarrow> SequenceDescriptor \<Rightarrow> size_t \<Rightarrow> size_t \<Rightarrow> 'c result" where
  "AddSequence this sd0 startOffsetInFile endOffsetInFile =
     (let sd = sd0\<lparr> SequenceDescriptor.m_byteSize := ucast (endOffsetInFile - startOffsetInFile) \<rparr>
      in if ucast (SequenceDescriptor.m_byteSize sd) \<noteq> endOffsetInFile - startOffsetInFile
         then Inl (SequenceByteSizeOverflow, this)
         else if m_chunks this = [] then Inl (AssertionFailed, this)
         else
           let chunk = back_ptr (m_chunks this)
           in if ChunkDescriptor.m_byteSize (m_chunks this ! chunk) > 0
                 \<and> ChunkDescriptor.m_byteSize (m_chunks this ! chunk)
                     + ucast (SequenceDescriptor.m_byteSize sd) > m_maxChunkSize this
              then
                (case OpenChunk this chunk of (this1, chunk1) \<Rightarrow>
                   if unat (CHUNKID_MAX :: 'c word) < length (m_chunks this1)
                   then Inl (MaximumNumberOfChunksExceeded, this1)
                   else StoreSequence this1 chunk1 sd startOffsetInFile)
              else StoreSequence this chunk sd startOffsetInFile)"

text \<open>
  \<^verbatim>\<open>Index::Reserve\<close>, lines 137 to 145. When the maximal chunk size is not 0, line 141
  asks \<^verbatim>\<open>m_chunks.reserve\<close> for the capacity \<open>ReserveHint\<close>, computed in \<^verbatim>\<open>size_t\<close>
  arithmetic. \<^verbatim>\<open>std::vector::reserve\<close> throws \<^verbatim>\<open>std::length_error\<close> when the request exceeds
  \<^verbatim>\<open>max_size()\<close>, and otherwise leaves the elements alone. The value of \<^verbatim>\<open>max_size()\<close> is
  fixed by the implementation of the standard library; it is the parameter \<open>max_size\<close>.
  Line 144 appends one chunk (\<open>Reserved\<close>).
\<close>

definition ReserveHint :: "size_t \<Rightarrow> size_t \<Rightarrow> size_t" where
  "ReserveHint maxChunkSize sizeInBytes = (sizeInBytes + maxChunkSize - 1) div maxChunkSize"

definition Reserved :: "('c::len) Index \<Rightarrow> 'c Index" where
  "Reserved this = this\<lparr> m_chunks := m_chunks this @ [ChunkDescriptor_ctor] \<rparr>"

definition Reserve :: "nat \<Rightarrow> ('c::len) Index \<Rightarrow> size_t \<Rightarrow> 'c result" where
  "Reserve max_size this sizeInBytes =
     (if m_maxChunkSize this > 0
         \<and> max_size < unat (ReserveHint (m_maxChunkSize this) sizeInBytes)
      then Inl (LengthError, this)
      else Inr (Reserved this))"

definition IsEmpty :: "('c::len) Index \<Rightarrow> bool" where
  "IsEmpty this = (m_chunks this = [])"

subsection \<open>Building an index\<close>

text \<open>
  A build is the constructor, one \<^verbatim>\<open>Reserve\<close> and a list of \<^verbatim>\<open>AddSequence\<close> calls, each
  given by its three arguments. The first call that throws ends the build without an
  index.
\<close>

type_synonym call = "SequenceDescriptor \<times> size_t \<times> size_t"

fun AddSequences :: "('c::len) Index \<Rightarrow> call list \<Rightarrow> 'c Index option" where
  "AddSequences this [] = Some this"
| "AddSequences this ((sd, startOffsetInFile, endOffsetInFile) # calls) =
     (case AddSequence this sd startOffsetInFile endOffsetInFile of
        Inl failure \<Rightarrow> None
      | Inr this1 \<Rightarrow> AddSequences this1 calls)"

definition BuildIndex ::
  "nat \<Rightarrow> size_t \<Rightarrow> bool \<Rightarrow> bool \<Rightarrow> size_t \<Rightarrow> call list \<Rightarrow> ('c::len) Index option" where
  "BuildIndex max_size chunkSize primary trackFirstSamples sizeInBytes calls =
     (case Reserve max_size (Index_ctor chunkSize primary trackFirstSamples) sizeInBytes of
        Inl failure \<Rightarrow> None
      | Inr this \<Rightarrow> AddSequences this calls)"

text \<open>
  The descriptor that the indexer hands to \<^verbatim>\<open>AddSequence\<close> for the record with the key
  \<open>k\<close>: one sample, sub-sequence identifier 0.
\<close>

definition record_sd :: "size_t \<Rightarrow> SequenceDescriptor" where
  "record_sd k = SequenceDescriptor_ctor \<lparr> m_sequence = k, m_sample = 0 \<rparr> 1"

text \<open>
  The two parts of the outcome of a call: the error that it raised, if any, and the index
  as the call leaves it.
\<close>

definition raised :: "('c::len) result \<Rightarrow> error option" where
  "raised r = (case r of Inl (err, this) \<Rightarrow> Some err | Inr this \<Rightarrow> None)"

definition index_after :: "('c::len) result \<Rightarrow> 'c Index" where
  "index_after r = (case r of Inl (err, this) \<Rightarrow> this | Inr this \<Rightarrow> this)"

text \<open>
  A list of calls covers the file from the offset \<open>pos\<close> without gaps: every record starts
  where the one before it ends, the first at \<open>pos\<close>, and no record ends before it starts.
\<close>

fun contiguous :: "size_t \<Rightarrow> call list \<Rightarrow> bool" where
  "contiguous pos [] = True"
| "contiguous pos ((sd, startOffsetInFile, endOffsetInFile) # calls) =
     (startOffsetInFile = pos \<and> startOffsetInFile \<le> endOffsetInFile
      \<and> contiguous endOffsetInFile calls)"

text \<open>
  The calls for a file of \<open>n\<close> records of one byte each: record \<open>k\<close> has the key \<open>k\<close>
  and is the byte at the offset \<open>k\<close>.
\<close>

definition one_byte_records :: "nat \<Rightarrow> call list" where
  "one_byte_records n = map (\<lambda>k. (record_sd (of_nat k), of_nat k, of_nat k + 1)) [0..<n]"

text \<open>
  The invariant of one chunk under the maximal chunk size \<open>M\<close>, used for the cap on chunk
  sizes. A chunk within the cap that has byte size 0 holds only sequences of no bytes
  (when \<open>M\<close> is below \<open>2 ^ 32\<close>, so that the byte size cannot wrap around to 0); a chunk
  beyond the cap holds one sequence of non-zero size, and that sequence has the size of
  the chunk.
\<close>

definition cap_invariant :: "size_t \<Rightarrow> ('c::len) ChunkDescriptor \<Rightarrow> bool" where
  "cap_invariant M c \<longleftrightarrow>
     (if ChunkDescriptor.m_byteSize c \<le> M
      then ChunkDescriptor.m_byteSize c = 0 \<and> unat M < 2 ^ 32
           \<longrightarrow> (\<forall>q \<in> set (m_sequences c). SequenceDescriptor.m_byteSize q = 0)
      else \<exists>q. filter (\<lambda>q. SequenceDescriptor.m_byteSize q \<noteq> 0) (m_sequences c) = [q]
               \<and> ucast (SequenceDescriptor.m_byteSize q) = ChunkDescriptor.m_byteSize c)"

section \<open>Basic facts\<close>

lemma unat_CHUNKID_MAX: "unat (CHUNKID_MAX :: 'c::len word) = 2 ^ LENGTH('c) - 1"
  by (simp add: CHUNKID_MAX_def unsigned_minus_1_eq_mask mask_eq_exp_minus_1)

lemmas run_defs =
  BuildIndex_def Reserve_def ReserveHint_def Reserved_def raised_def index_after_def Index_ctor_def AddSequence_def StoreSequence_def UpdateTotals_def
  RecordLocation_def OpenChunk_def back_ptr_def previousChunk_def ChunkDescriptor_ctor_def
  record_sd_def SequenceDescriptor_ctor_def unat_CHUNKID_MAX map_insert_def Let_def

subsection \<open>The call on a non-empty index\<close>

text \<open>
  After \<^verbatim>\<open>Reserve\<close> the vector of chunks is never empty, and the pointer \<^verbatim>\<open>chunk\<close> is the
  position of its last element. The lemmas below rewrite the positional updates of the
  model into operations on the last element, first for the parts of \<^verbatim>\<open>AddSequence\<close>, then
  for the whole call; \<open>AddSequence_InrD\<close> describes the index after a call that returns.
\<close>

lemma UpdateTotals_simps [simp]:
  "m_sequences (UpdateTotals t c sd) = m_sequences c"
  "m_offset (UpdateTotals t c sd) = m_offset c"
  "m_id (UpdateTotals t c sd) = m_id c"
  "ChunkDescriptor.m_byteSize (UpdateTotals t c sd)
     = ChunkDescriptor.m_byteSize c + ucast (SequenceDescriptor.m_byteSize sd)"
  "m_numberOfSequences (UpdateTotals t c sd) = m_numberOfSequences c + 1"
  "ChunkDescription.m_numberOfSamples (UpdateTotals t c sd)
     = ChunkDescription.m_numberOfSamples c + ucast (SequenceDescriptor.m_numberOfSamples sd)"
  "m_firstSamples (UpdateTotals t c sd)
     = (if t then m_firstSamples c @ [ChunkDescription.m_numberOfSamples c] else m_firstSamples c)"
  by (simp_all add: UpdateTotals_def Let_def)

lemma OpenChunk_eq:
  "OpenChunk this k =
     (this\<lparr> m_chunks := m_chunks this @ [ChunkDescriptor_ctor\<lparr> m_id := of_nat (length (m_chunks this)) \<rparr>] \<rparr>,
      length (m_chunks this))"
  by (simp add: OpenChunk_def back_ptr_def previousChunk_def Let_def ChunkDescriptor_ctor_def)

lemma StoreSequence_back:
  assumes "m_chunks this = pre @ [c]" and "k = length pre"
  shows "StoreSequence this k sd s =
    (let c4 = UpdateTotals (m_trackFirstSamples this) c sd;
         this1 = this\<lparr> m_chunks := pre @ [c4] \<rparr>;
         this2 = (if m_primary this then this1
                  else this1\<lparr> m_keyToSequenceInChunk :=
                         map_insert (m_keyToSequenceInChunk this) (m_sequence (m_key sd))
                           (ucast (m_id c), of_nat (length (m_sequences c))) \<rparr>)
     in if \<not> m_primary this
           \<and> unat (of_nat (length (m_sequences c)) :: uint32_t) \<noteq> length (m_sequences c)
        then Inl (NumberOfSequencesOverflow, this1)
        else if ucast (ucast (s - m_offset c) :: uint32_t) \<noteq> s - m_offset c
        then Inl (ChunkSizeOverflow, this2)
        else Inr (this2\<lparr> m_chunks :=
                    pre @ [c4\<lparr> m_sequences :=
                             m_sequences c @ [sd\<lparr> m_chunkOffsetBytes := ucast (s - m_offset c) \<rparr>] \<rparr>] \<rparr>))"
  using assms by (simp add: StoreSequence_def RecordLocation_def Let_def)

lemma AddSequence_back:
  fixes this :: "('c::len) Index"
  assumes "m_chunks this = pre @ [c]"
  shows "AddSequence this sd0 s e =
    (let sd = sd0\<lparr> SequenceDescriptor.m_byteSize := ucast (e - s) \<rparr>
     in if ucast (ucast (e - s) :: uint32_t) \<noteq> e - s then Inl (SequenceByteSizeOverflow, this)
        else if 0 < ChunkDescriptor.m_byteSize c
                \<and> m_maxChunkSize this < ChunkDescriptor.m_byteSize c + (e - s)
        then (let this1 = this\<lparr> m_chunks := pre @ [c, ChunkDescriptor_ctor\<lparr> m_id := of_nat (Suc (length pre)) \<rparr>] \<rparr>
              in if unat (CHUNKID_MAX :: 'c word) < length pre + 2
                 then Inl (MaximumNumberOfChunksExceeded, this1)
                 else StoreSequence this1 (length (pre @ [c])) sd s)
        else StoreSequence this (length pre) sd s)"
  using assms by (simp add: AddSequence_def OpenChunk_eq back_ptr_def Let_def)


lemma StoreSequence_InrD:
  assumes "StoreSequence x k sd s = Inr x'" and "m_chunks x = p @ [b]" and "k = length p"
  shows "(\<not> m_primary x \<longrightarrow>
           unat (of_nat (length (m_sequences b)) :: uint32_t) = length (m_sequences b))
     \<and> ucast (ucast (s - m_offset b) :: uint32_t) = s - m_offset b
     \<and> m_chunks x' =
         p @ [(UpdateTotals (m_trackFirstSamples x) b sd)
              \<lparr> m_sequences := m_sequences b
                   @ [sd\<lparr> m_chunkOffsetBytes := ucast (s - m_offset b) \<rparr>] \<rparr>]
     \<and> m_keyToSequenceInChunk x' =
         (if m_primary x then m_keyToSequenceInChunk x
          else map_insert (m_keyToSequenceInChunk x) (m_sequence (m_key sd))
                 (ucast (m_id b), of_nat (length (m_sequences b))))
     \<and> m_maxChunkSize x' = m_maxChunkSize x
     \<and> m_primary x' = m_primary x
     \<and> m_trackFirstSamples x' = m_trackFirstSamples x"
  using assms(1) unfolding StoreSequence_back [OF assms(2,3)]
  by (auto simp add: Let_def split: if_splits)

lemma AddSequence_InrD:
  fixes this :: "('c::len) Index"
  assumes "AddSequence this sd0 s e = Inr this'"
  shows "\<exists>p b.
     (m_chunks this = p @ [b]
        \<and> \<not> (0 < ChunkDescriptor.m_byteSize b
              \<and> m_maxChunkSize this < ChunkDescriptor.m_byteSize b + (e - s))
      \<or> m_chunks this \<noteq> [] \<and> p = m_chunks this
        \<and> b = ChunkDescriptor_ctor\<lparr> m_id := of_nat (length (m_chunks this)) \<rparr>
        \<and> 0 < ChunkDescriptor.m_byteSize (last (m_chunks this))
        \<and> m_maxChunkSize this < ChunkDescriptor.m_byteSize (last (m_chunks this)) + (e - s)
        \<and> length (m_chunks this) < unat (CHUNKID_MAX :: 'c word))
     \<and> ucast (ucast (e - s) :: uint32_t) = e - s
     \<and> (\<not> m_primary this \<longrightarrow>
           unat (of_nat (length (m_sequences b)) :: uint32_t) = length (m_sequences b))
     \<and> ucast (ucast (s - m_offset b) :: uint32_t) = s - m_offset b
     \<and> m_chunks this' =
         p @ [(UpdateTotals (m_trackFirstSamples this) b
                 (sd0\<lparr> SequenceDescriptor.m_byteSize := ucast (e - s) \<rparr>))
              \<lparr> m_sequences := m_sequences b
                   @ [sd0\<lparr> SequenceDescriptor.m_byteSize := ucast (e - s),
                          m_chunkOffsetBytes := ucast (s - m_offset b) \<rparr>] \<rparr>]
     \<and> m_keyToSequenceInChunk this' =
         (if m_primary this then m_keyToSequenceInChunk this
          else map_insert (m_keyToSequenceInChunk this) (m_sequence (m_key sd0))
                 (ucast (m_id b), of_nat (length (m_sequences b))))
     \<and> m_maxChunkSize this' = m_maxChunkSize this
     \<and> m_primary this' = m_primary this
     \<and> m_trackFirstSamples this' = m_trackFirstSamples this"
proof (cases "m_chunks this" rule: rev_cases)
  case Nil
  with assms show ?thesis
    by (simp add: AddSequence_def Let_def split: if_splits)
next
  case (snoc pre c)
  define sd where "sd = sd0\<lparr> SequenceDescriptor.m_byteSize := ucast (e - s) \<rparr>"
  define fresh :: "'c ChunkDescriptor"
    where "fresh = ChunkDescriptor_ctor\<lparr> m_id := of_nat (length (m_chunks this)) \<rparr>"
  define this1 where "this1 = this\<lparr> m_chunks := m_chunks this @ [fresh] \<rparr>"
  from assms have fits: "ucast (ucast (e - s) :: uint32_t) = e - s"
    by (simp add: AddSequence_back [OF snoc] Let_def split: if_splits)
  show ?thesis
  proof (cases "0 < ChunkDescriptor.m_byteSize c
                \<and> m_maxChunkSize this < ChunkDescriptor.m_byteSize c + (e - s)")
    case False
    with assms fits have "StoreSequence this (length pre) sd s = Inr this'"
      by (simp add: AddSequence_back [OF snoc] Let_def sd_def)
    from StoreSequence_InrD [OF this snoc refl] snoc False fits
    show ?thesis
      by (intro exI [of _ pre] exI [of _ c]) (simp add: sd_def)
  next
    case True
    have chunks1: "m_chunks this1 = m_chunks this @ [fresh]"
      by (simp add: this1_def)
    from assms fits True
    have limit: "\<not> unat (CHUNKID_MAX :: 'c word) < length pre + 2"
      and "StoreSequence this1 (length (m_chunks this)) sd s = Inr this'"
      by (simp_all add: AddSequence_back [OF snoc] Let_def sd_def this1_def fresh_def snoc
            split: if_splits)
    from StoreSequence_InrD [OF this(2) chunks1 refl] snoc True fits limit
    show ?thesis
      by (intro exI [of _ "m_chunks this"] exI [of _ fresh])
         (simp add: sd_def this1_def fresh_def)
  qed
qed

lemma AddSequences_invariant:
  assumes "AddSequences this calls = Some this'" and "P this"
    and "\<And>x sd s e x'. P x \<Longrightarrow> AddSequence x sd s e = Inr x' \<Longrightarrow> P x'"
  shows "P this'"
  using assms(1,2)
proof (induction calls arbitrary: this)
  case Nil
  then show ?case by simp
next
  case (Cons call calls)
  obtain sd s e where call: "call = (sd, s, e)" by (cases call)
  from Cons.prems(1) obtain x where step: "AddSequence this sd s e = Inr x"
    and rest: "AddSequences x calls = Some this'"
    by (auto simp: call split: sum.splits)
  from assms(3) [OF Cons.prems(2) step] have "P x" .
  from Cons.IH [OF rest this] show ?case .
qed

lemma BuildIndex_SomeD:
  assumes "BuildIndex max_size chunkSize primary track sizeInBytes calls = Some idx"
  shows "AddSequences (Reserved (Index_ctor chunkSize primary track)) calls = Some idx"
  using assms by (simp add: BuildIndex_def Reserve_def split: if_splits)

section \<open>Chunk offsets\<close>

text \<open>
  What line 107 amounts to: every chunk of a built index has the offset 0.
\<close>

lemma chunk_offsets_zero:
  fixes idx :: "('c::len) Index"
  assumes "BuildIndex max_size chunkSize primary track sizeInBytes calls = Some idx"
  shows "\<forall>c \<in> set (m_chunks idx). m_offset c = 0"
proof (rule AddSequences_invariant [OF BuildIndex_SomeD [OF assms]])
  show "\<forall>c \<in> set (m_chunks (Reserved (Index_ctor chunkSize primary track :: 'c Index))).
          m_offset c = 0"
    by (simp add: Reserved_def Index_ctor_def ChunkDescriptor_ctor_def)
next
  fix x x' :: "'c Index" and sd s e
  assume inv: "\<forall>c \<in> set (m_chunks x). m_offset c = 0" and step: "AddSequence x sd s e = Inr x'"
  from AddSequence_InrD [OF step] obtain p b where
    shape: "m_chunks x = p @ [b] \<or>
            p = m_chunks x \<and> b = ChunkDescriptor_ctor\<lparr> m_id := of_nat (length (m_chunks x)) \<rparr>"
    and chunks': "m_chunks x' =
         p @ [(UpdateTotals (m_trackFirstSamples x) b
                 (sd\<lparr> SequenceDescriptor.m_byteSize := ucast (e - s) \<rparr>))
              \<lparr> m_sequences := m_sequences b
                   @ [sd\<lparr> SequenceDescriptor.m_byteSize := ucast (e - s),
                          m_chunkOffsetBytes := ucast (s - m_offset b) \<rparr>] \<rparr>]"
    by blast
  from shape inv show "\<forall>c \<in> set (m_chunks x'). m_offset c = 0"
    by (auto simp: chunks' ChunkDescriptor_ctor_def)
qed

text \<open>
  Claim C1 says that in an index built by \<^verbatim>\<open>Reserve\<close> and successful \<^verbatim>\<open>AddSequence\<close> calls
  the first chunk starts at 0 and every chunk starts where the chunk before it ends. The
  second part fails in the code: with a maximal chunk size of 10 bytes and two records of
  8 bytes at the file offsets 0 and 8, the second record opens a second chunk, and that
  chunk gets the offset 0 although the first chunk ends at 8. Line 107 reads the offset and
  the size through \<^verbatim>\<open>previousChunk\<close>, which by then names the new chunk.
\<close>

theorem C1_second_chunk_offset:
  "map_option (\<lambda>idx. map (\<lambda>c. (m_offset c, ChunkDescriptor.m_byteSize c)) (m_chunks idx))
     (BuildIndex 104811045873349725 10 True False 16 [(record_sd 0, 0, 8), (record_sd 1, 8, 16)] :: 32 Index option)
   = Some [(0, 8), (0, 8)]"
  by (simp add: run_defs)

section \<open>Chunk ids and the limit on the number of chunks\<close>

lemma Reserve_chunks: "m_chunks (Reserved (Index_ctor chunkSize primary track)) = [ChunkDescriptor_ctor]"
  by (simp add: Reserved_def Index_ctor_def)

lemma two_le_CHUNKID: "Suc 0 \<le> unat (CHUNKID_MAX :: 'c::len word)"
proof -
  have "2 ^ 1 \<le> (2::nat) ^ LENGTH('c)"
    by (rule power_increasing) (simp_all add: Suc_leI)
  then show ?thesis by (simp add: unat_CHUNKID_MAX)
qed

lemma unat_new_id:
  assumes "n < unat (CHUNKID_MAX :: 'c::len word)"
  shows "unat (of_nat n :: 'c word) = n"
  using assms by (intro le_unat_uoi [of n "CHUNKID_MAX :: 'c word"]) simp

lemma chunk_ids_step:
  fixes x :: "('c::len) Index"
  assumes inv: "m_chunks x \<noteq> [] \<and> length (m_chunks x) \<le> unat (CHUNKID_MAX :: 'c word)
         \<and> (\<forall>i < length (m_chunks x). unat (m_id (m_chunks x ! i)) = i)"
    and step: "AddSequence x sd s e = Inr x'"
  shows "m_chunks x' \<noteq> [] \<and> length (m_chunks x') \<le> unat (CHUNKID_MAX :: 'c word)
         \<and> (\<forall>i < length (m_chunks x'). unat (m_id (m_chunks x' ! i)) = i)"
proof -
  from AddSequence_InrD [OF step] obtain p b where
    shape: "m_chunks x = p @ [b] \<or>
            p = m_chunks x \<and> b = ChunkDescriptor_ctor\<lparr> m_id := of_nat (length (m_chunks x)) \<rparr>
            \<and> length (m_chunks x) < unat (CHUNKID_MAX :: 'c word)"
    and chunks': "m_chunks x' =
         p @ [(UpdateTotals (m_trackFirstSamples x) b
                 (sd\<lparr> SequenceDescriptor.m_byteSize := ucast (e - s) \<rparr>))
              \<lparr> m_sequences := m_sequences b
                   @ [sd\<lparr> SequenceDescriptor.m_byteSize := ucast (e - s),
                          m_chunkOffsetBytes := ucast (s - m_offset b) \<rparr>] \<rparr>]"
    by blast
  from shape show ?thesis
  proof
    assume same: "m_chunks x = p @ [b]"
    with inv have "unat (m_id b) = length p" by (auto simp: nth_append)
    with inv same show ?thesis
      by (auto simp: chunks' nth_append less_Suc_eq)
  next
    assume new: "p = m_chunks x \<and> b = ChunkDescriptor_ctor\<lparr> m_id := of_nat (length (m_chunks x)) \<rparr>
            \<and> length (m_chunks x) < unat (CHUNKID_MAX :: 'c word)"
    then have "unat (m_id b) = length p" by (simp add: unat_new_id)
    with inv new show ?thesis
      by (auto simp: chunks' nth_append less_Suc_eq)
  qed
qed

lemma chunk_ids_Reserve:
  "m_chunks (Reserved (Index_ctor chunkSize primary track :: ('c::len) Index)) \<noteq> [] \<and>
    length (m_chunks (Reserved (Index_ctor chunkSize primary track :: 'c Index)))
      \<le> unat (CHUNKID_MAX :: 'c word) \<and>
    (\<forall>i<length (m_chunks (Reserved (Index_ctor chunkSize primary track :: 'c Index))).
        unat (m_id (m_chunks (Reserved (Index_ctor chunkSize primary track :: 'c Index)) ! i)) = i)"
  by (simp add: Reserve_chunks two_le_CHUNKID) (simp add: ChunkDescriptor_ctor_def)

lemma chunk_ids_invariant:
  fixes idx :: "('c::len) Index"
  assumes "BuildIndex max_size chunkSize primary track sizeInBytes calls = Some idx"
  shows "m_chunks idx \<noteq> [] \<and> length (m_chunks idx) \<le> unat (CHUNKID_MAX :: 'c word)
         \<and> (\<forall>i < length (m_chunks idx). unat (m_id (m_chunks idx ! i)) = i)"
  by (rule AddSequences_invariant [OF BuildIndex_SomeD [OF assms]])
     (rule chunk_ids_Reserve, rule chunk_ids_step)

text \<open>
  Claim C7. \<^verbatim>\<open>AddSequence\<close> fails with "Maximum number of chunks exceeded" whenever it
  opens a chunk that makes the vector longer than \<^verbatim>\<open>CHUNKID_MAX\<close>: the record size fits in
  32 bits, the last chunk is not empty, the record does not fit in it, and the vector
  already holds \<^verbatim>\<open>CHUNKID_MAX\<close> chunks or more. Hence an index built by \<^verbatim>\<open>Reserve\<close> and
  successful calls has at most \<^verbatim>\<open>CHUNKID_MAX\<close> chunks, and the id of every chunk, read as a
  number, is the position of the chunk: no cast to \<^verbatim>\<open>ChunkIdType\<close> lost a bit.
\<close>

theorem C7_chunk_limit:
  fixes this :: "('c::len) Index" and idx :: "('d::len) Index"
  shows "(m_chunks this \<noteq> [] \<and> ucast (ucast (e - s) :: uint32_t) = e - s
          \<and> 0 < ChunkDescriptor.m_byteSize (last (m_chunks this))
          \<and> m_maxChunkSize this < ChunkDescriptor.m_byteSize (last (m_chunks this)) + (e - s)
          \<and> unat (CHUNKID_MAX :: 'c word) < length (m_chunks this) + 1
          \<longrightarrow> (\<exists>this'. AddSequence this sd s e = Inl (MaximumNumberOfChunksExceeded, this')))
       \<and> (BuildIndex max_size chunkSize primary track sizeInBytes calls = Some idx
          \<longrightarrow> length (m_chunks idx) \<le> unat (CHUNKID_MAX :: 'd word)
              \<and> (\<forall>i < length (m_chunks idx). unat (m_id (m_chunks idx ! i)) = i))"
proof (intro conjI impI)
  assume a: "m_chunks this \<noteq> [] \<and> ucast (ucast (e - s) :: uint32_t) = e - s
          \<and> 0 < ChunkDescriptor.m_byteSize (last (m_chunks this))
          \<and> m_maxChunkSize this < ChunkDescriptor.m_byteSize (last (m_chunks this)) + (e - s)
          \<and> unat (CHUNKID_MAX :: 'c word) < length (m_chunks this) + 1"
  then obtain pre c where snoc: "m_chunks this = pre @ [c]"
    by (cases "m_chunks this" rule: rev_cases) auto
  with a show "\<exists>this'. AddSequence this sd s e = Inl (MaximumNumberOfChunksExceeded, this')"
    by (simp add: AddSequence_back [OF snoc] Let_def)
next
  assume "BuildIndex max_size chunkSize primary track sizeInBytes calls = Some idx"
  from chunk_ids_invariant [OF this]
  show "length (m_chunks idx) \<le> unat (CHUNKID_MAX :: 'd word)"
    and "\<forall>i < length (m_chunks idx). unat (m_id (m_chunks idx ! i)) = i"
    by simp_all
qed

text \<open>
  With a chunk id of one bit \<^verbatim>\<open>CHUNKID_MAX\<close> is 1 and the second chunk is refused; with
  32 bits the same two records give an index of two chunks.
\<close>

theorem C7_chunk_limit_witness:
  "(\<exists>this :: 1 Index. BuildIndex 104811045873349725 10 True False 16 [(record_sd 0, 0, 8)] = Some this
      \<and> (\<exists>this'. AddSequence this (record_sd 1) 8 16 = Inl (MaximumNumberOfChunksExceeded, this')))
   \<and> (\<exists>idx :: 32 Index. BuildIndex 104811045873349725 10 True False 16 [(record_sd 0, 0, 8), (record_sd 1, 8, 16)] = Some idx
      \<and> length (m_chunks idx) = 2 \<and> length (m_chunks idx) \<le> unat (CHUNKID_MAX :: 32 word)
      \<and> (\<forall>i < length (m_chunks idx). unat (m_id (m_chunks idx ! i)) = i))"
proof -
  obtain this :: "1 Index" where
    b1: "BuildIndex 104811045873349725 10 True False 16 [(record_sd 0, 0, 8)] = Some this"
    and h1: "m_chunks this \<noteq> [] \<and> ucast (ucast (16 - 8 :: size_t) :: uint32_t) = (16 - 8 :: size_t)
          \<and> 0 < ChunkDescriptor.m_byteSize (last (m_chunks this))
          \<and> m_maxChunkSize this < ChunkDescriptor.m_byteSize (last (m_chunks this)) + (16 - 8)
          \<and> unat (CHUNKID_MAX :: 1 word) < length (m_chunks this) + 1"
    by (simp add: run_defs)
  obtain idx :: "32 Index" where
    b2: "BuildIndex 104811045873349725 10 True False 16 [(record_sd 0, 0, 8), (record_sd 1, 8, 16)] = Some idx"
    and l2: "length (m_chunks idx) = 2"
    by (simp add: run_defs)
  from C7_chunk_limit [of this 16 8 "record_sd 1" 104811045873349725 10 True False 16 _ idx] h1 b1 b2 l2
  show ?thesis by blast
qed

section \<open>The table of first samples\<close>

text \<open>
  The invariant of one chunk when first samples are tracked: the table has one entry for
  each stored sequence, entry \<open>i\<close> is the sum of the sample counts of the sequences before
  position \<open>i\<close>, and the chunk's sample count is the sum over all its sequences. Sums are
  those of the \<^verbatim>\<open>size_t\<close> counters, with the 32-bit sample counts widened.
\<close>

lemma first_samples_step:
  fixes b :: "('c::len) ChunkDescriptor"
  assumes len: "length (m_firstSamples b) = length (m_sequences b)"
    and tab: "\<forall>i < length (m_sequences b). m_firstSamples b ! i
          = sum_list (map (\<lambda>q. ucast (SequenceDescriptor.m_numberOfSamples q)) (take i (m_sequences b)))"
    and tot: "ChunkDescription.m_numberOfSamples b
          = sum_list (map (\<lambda>q. ucast (SequenceDescriptor.m_numberOfSamples q)) (m_sequences b))"
    and c': "c' = (UpdateTotals True b sd)\<lparr> m_sequences := m_sequences b @ [sd'] \<rparr>"
    and n: "SequenceDescriptor.m_numberOfSamples sd' = SequenceDescriptor.m_numberOfSamples sd"
  shows "length (m_firstSamples c') = length (m_sequences c')
    \<and> (\<forall>i < length (m_sequences c'). m_firstSamples c' ! i
          = sum_list (map (\<lambda>q. ucast (SequenceDescriptor.m_numberOfSamples q)) (take i (m_sequences c'))))
    \<and> ChunkDescription.m_numberOfSamples c'
          = sum_list (map (\<lambda>q. ucast (SequenceDescriptor.m_numberOfSamples q)) (m_sequences c'))"
  using len tab tot n by (auto simp: c' nth_append less_Suc_eq)

lemma first_samples_invariant:
  fixes idx :: "('c::len) Index"
  assumes "BuildIndex max_size chunkSize primary True sizeInBytes calls = Some idx"
  shows "m_trackFirstSamples idx \<and> (\<forall>c \<in> set (m_chunks idx).
      length (m_firstSamples c) = length (m_sequences c)
    \<and> (\<forall>i < length (m_sequences c). m_firstSamples c ! i
          = sum_list (map (\<lambda>q. ucast (SequenceDescriptor.m_numberOfSamples q)) (take i (m_sequences c))))
    \<and> ChunkDescription.m_numberOfSamples c
          = sum_list (map (\<lambda>q. ucast (SequenceDescriptor.m_numberOfSamples q)) (m_sequences c)))"
    (is "?P idx")
proof (rule AddSequences_invariant [OF BuildIndex_SomeD [OF assms], of ?P])
  show "?P (Reserved (Index_ctor chunkSize primary True))"
    by (simp add: Reserved_def Index_ctor_def ChunkDescriptor_ctor_def)
next
  fix x x' :: "'c Index" and sd s e
  assume inv: "?P x" and step: "AddSequence x sd s e = Inr x'"
  from AddSequence_InrD [OF step] obtain p b where
    shape: "m_chunks x = p @ [b] \<or>
            p = m_chunks x \<and> b = ChunkDescriptor_ctor\<lparr> m_id := of_nat (length (m_chunks x)) \<rparr>"
    and chunks': "m_chunks x' =
         p @ [(UpdateTotals (m_trackFirstSamples x) b
                 (sd\<lparr> SequenceDescriptor.m_byteSize := ucast (e - s) \<rparr>))
              \<lparr> m_sequences := m_sequences b
                   @ [sd\<lparr> SequenceDescriptor.m_byteSize := ucast (e - s),
                          m_chunkOffsetBytes := ucast (s - m_offset b) \<rparr>] \<rparr>]"
    and track': "m_trackFirstSamples x' = m_trackFirstSamples x"
    by blast
  from inv have track: "m_trackFirstSamples x" by simp
  from shape inv have old: "\<forall>c \<in> set p.
      length (m_firstSamples c) = length (m_sequences c)
    \<and> (\<forall>i < length (m_sequences c). m_firstSamples c ! i
          = sum_list (map (\<lambda>q. ucast (SequenceDescriptor.m_numberOfSamples q)) (take i (m_sequences c))))
    \<and> ChunkDescription.m_numberOfSamples c
          = sum_list (map (\<lambda>q. ucast (SequenceDescriptor.m_numberOfSamples q)) (m_sequences c))"
    by auto
  from shape inv have b: "length (m_firstSamples b) = length (m_sequences b)
    \<and> (\<forall>i < length (m_sequences b). m_firstSamples b ! i
          = sum_list (map (\<lambda>q. ucast (SequenceDescriptor.m_numberOfSamples q)) (take i (m_sequences b))))
    \<and> ChunkDescription.m_numberOfSamples b
          = sum_list (map (\<lambda>q. ucast (SequenceDescriptor.m_numberOfSamples q)) (m_sequences b))"
    by (auto simp: ChunkDescriptor_ctor_def)
  define c' where "c' = (UpdateTotals True b (sd\<lparr> SequenceDescriptor.m_byteSize := ucast (e - s) \<rparr>))
              \<lparr> m_sequences := m_sequences b
                   @ [sd\<lparr> SequenceDescriptor.m_byteSize := ucast (e - s),
                          m_chunkOffsetBytes := ucast (s - m_offset b) \<rparr>] \<rparr>"
  have new: "m_chunks x' = p @ [c']"
    using chunks' track by (simp add: c'_def)
  have "length (m_firstSamples c') = length (m_sequences c')
    \<and> (\<forall>i < length (m_sequences c'). m_firstSamples c' ! i
          = sum_list (map (\<lambda>q. ucast (SequenceDescriptor.m_numberOfSamples q)) (take i (m_sequences c'))))
    \<and> ChunkDescription.m_numberOfSamples c'
          = sum_list (map (\<lambda>q. ucast (SequenceDescriptor.m_numberOfSamples q)) (m_sequences c'))"
    by (rule first_samples_step [OF conjunct1 [OF b] conjunct1 [OF conjunct2 [OF b]]
          conjunct2 [OF conjunct2 [OF b]] c'_def]) simp
  with old track track' show "?P x'"
    unfolding new by simp
qed

text \<open>
  Claim C8. With \<^verbatim>\<open>trackFirstSamples\<close> set, a call of \<^verbatim>\<open>AddSequence\<close> that returns has
  appended to the table of the owning chunk the sample count that this chunk had before the
  call (the owning chunk is the last chunk of the index, or a chunk fresh from the
  constructor when the call opened one). In an index built by \<^verbatim>\<open>Reserve\<close> and successful
  calls, every chunk then has one table entry for each of its sequences, and entry \<open>i\<close>
  is the sum of the sample counts of the sequences at the positions below \<open>i\<close>.
\<close>

theorem C8_first_samples:
  fixes this :: "('c::len) Index" and idx :: "('d::len) Index"
  shows "(m_trackFirstSamples this \<and> AddSequence this sd s e = Inr this' \<longrightarrow>
           (let b = (if length (m_chunks this') = length (m_chunks this)
                     then last (m_chunks this) else ChunkDescriptor_ctor)
            in m_firstSamples (last (m_chunks this'))
                 = m_firstSamples b @ [ChunkDescription.m_numberOfSamples b]))
       \<and> (BuildIndex max_size chunkSize primary True sizeInBytes calls = Some idx \<longrightarrow>
           (\<forall>c \<in> set (m_chunks idx).
                length (m_firstSamples c) = length (m_sequences c)
              \<and> (\<forall>i < length (m_sequences c). m_firstSamples c ! i
                    = sum_list (map (\<lambda>q. ucast (SequenceDescriptor.m_numberOfSamples q))
                                 (take i (m_sequences c))))))"
proof (intro conjI impI)
  assume a: "m_trackFirstSamples this \<and> AddSequence this sd s e = Inr this'"
  from AddSequence_InrD [OF conjunct2 [OF a]] obtain p b where
    shape: "m_chunks this = p @ [b] \<or>
            p = m_chunks this \<and> b = ChunkDescriptor_ctor\<lparr> m_id := of_nat (length (m_chunks this)) \<rparr>"
    and chunks': "m_chunks this' =
         p @ [(UpdateTotals (m_trackFirstSamples this) b
                 (sd\<lparr> SequenceDescriptor.m_byteSize := ucast (e - s) \<rparr>))
              \<lparr> m_sequences := m_sequences b
                   @ [sd\<lparr> SequenceDescriptor.m_byteSize := ucast (e - s),
                          m_chunkOffsetBytes := ucast (s - m_offset b) \<rparr>] \<rparr>]"
    by blast
  from shape a show "let b = (if length (m_chunks this') = length (m_chunks this)
                     then last (m_chunks this) else ChunkDescriptor_ctor)
            in m_firstSamples (last (m_chunks this'))
                 = m_firstSamples b @ [ChunkDescription.m_numberOfSamples b]"
    by (auto simp: chunks' ChunkDescriptor_ctor_def)
next
  assume "BuildIndex max_size chunkSize primary True sizeInBytes calls = Some idx"
  from first_samples_invariant [OF this]
  show "\<forall>c \<in> set (m_chunks idx).
                length (m_firstSamples c) = length (m_sequences c)
              \<and> (\<forall>i < length (m_sequences c). m_firstSamples c ! i
                    = sum_list (map (\<lambda>q. ucast (SequenceDescriptor.m_numberOfSamples q))
                                 (take i (m_sequences c))))"
    by blast
qed

text \<open>
  Three records of 2, 3 and 4 samples in one chunk: the table is 0, 2, 5.
\<close>

theorem C8_first_samples_witness:
  "(\<exists>this this' :: 32 Index.
       m_trackFirstSamples this
     \<and> AddSequence this (SequenceDescriptor_ctor \<lparr> m_sequence = 1, m_sample = 0 \<rparr> 3) 10 20 = Inr this'
     \<and> m_firstSamples (last (m_chunks this')) = [0, 2])
   \<and> (\<exists>idx :: 32 Index.
       BuildIndex 104811045873349725 100 True True 30
         [(SequenceDescriptor_ctor \<lparr> m_sequence = 0, m_sample = 0 \<rparr> 2, 0, 10),
          (SequenceDescriptor_ctor \<lparr> m_sequence = 1, m_sample = 0 \<rparr> 3, 10, 20),
          (SequenceDescriptor_ctor \<lparr> m_sequence = 2, m_sample = 0 \<rparr> 4, 20, 30)] = Some idx
     \<and> map m_firstSamples (m_chunks idx) = [[0, 2, 5]]
     \<and> (\<forall>c \<in> set (m_chunks idx).
                length (m_firstSamples c) = length (m_sequences c)
              \<and> (\<forall>i < length (m_sequences c). m_firstSamples c ! i
                    = sum_list (map (\<lambda>q. ucast (SequenceDescriptor.m_numberOfSamples q))
                                 (take i (m_sequences c))))))"
proof -
  obtain this :: "32 Index" where
    b1: "BuildIndex 104811045873349725 100 True True 30
           [(SequenceDescriptor_ctor \<lparr> m_sequence = 0, m_sample = 0 \<rparr> 2, 0, 10)] = Some this"
    and t1: "m_trackFirstSamples this"
    and l1: "m_firstSamples (last (m_chunks this)) = [0]"
       "ChunkDescription.m_numberOfSamples (last (m_chunks this)) = 2"
    by (simp add: run_defs)
  obtain this' :: "32 Index" where
    s1: "AddSequence this (SequenceDescriptor_ctor \<lparr> m_sequence = 1, m_sample = 0 \<rparr> 3) 10 20 = Inr this'"
    and l1': "length (m_chunks this') = length (m_chunks this)"
    using b1 by (auto simp add: run_defs)
  obtain idx :: "32 Index" where
    b2: "BuildIndex 104811045873349725 100 True True 30
         [(SequenceDescriptor_ctor \<lparr> m_sequence = 0, m_sample = 0 \<rparr> 2, 0, 10),
          (SequenceDescriptor_ctor \<lparr> m_sequence = 1, m_sample = 0 \<rparr> 3, 10, 20),
          (SequenceDescriptor_ctor \<lparr> m_sequence = 2, m_sample = 0 \<rparr> 4, 20, 30)] = Some idx"
    and l2: "map m_firstSamples (m_chunks idx) = [[0, 2, 5]]"
    by (simp add: run_defs)
  from C8_first_samples [of this "SequenceDescriptor_ctor \<lparr> m_sequence = 1, m_sample = 0 \<rparr> 3"
      10 20 this' 104811045873349725 100 True 30 _ idx] t1 s1 l1 l1' b2 l2
  show ?thesis by (auto simp: Let_def)
qed

section \<open>The map from keys to locations\<close>

lemma map_insert_apply:
  "map_insert m k v k' = (if k' = k \<and> m k = None then Some v else m k')"
  by (simp add: map_insert_def split: option.splits)

lemma unat_ucast_id32:
  fixes w :: "('c::len) word"
  assumes "LENGTH('c) \<le> 32"
  shows "unat (ucast w :: uint32_t) = unat w"
proof -
  have "unat w < 2 ^ LENGTH('c)" by simp
  also have "(2::nat) ^ LENGTH('c) \<le> 2 ^ 32"
    using assms by (intro power_increasing) simp_all
  finally have "unat w < 2 ^ LENGTH(32)" by simp
  then show ?thesis
    by (simp add: unsigned_ucast_eq take_bit_nat_eq_self)
qed

text \<open>
  Every entry of the map points to a stored descriptor with the entry's key. The invariant
  carries the facts on chunk ids, which turn the stored id back into a position.
\<close>

lemma key_map_step:
  fixes x :: "('c::len) Index"
  assumes width: "LENGTH('c) \<le> 32"
    and ids: "m_chunks x \<noteq> [] \<and> length (m_chunks x) \<le> unat (CHUNKID_MAX :: 'c word)
         \<and> (\<forall>i < length (m_chunks x). unat (m_id (m_chunks x ! i)) = i)"
    and inv: "\<forall>k cid pos. m_keyToSequenceInChunk x k = Some (cid, pos) \<longrightarrow>
         unat cid < length (m_chunks x)
       \<and> unat pos < length (m_sequences (m_chunks x ! unat cid))
       \<and> m_sequence (m_key (m_sequences (m_chunks x ! unat cid) ! unat pos)) = k"
    and step: "AddSequence x sd s e = Inr x'"
  shows "\<forall>k cid pos. m_keyToSequenceInChunk x' k = Some (cid, pos) \<longrightarrow>
         unat cid < length (m_chunks x')
       \<and> unat pos < length (m_sequences (m_chunks x' ! unat cid))
       \<and> m_sequence (m_key (m_sequences (m_chunks x' ! unat cid) ! unat pos)) = k"
proof -
  from AddSequence_InrD [OF step] obtain p b where
    shape: "m_chunks x = p @ [b] \<or>
            p = m_chunks x \<and> b = ChunkDescriptor_ctor\<lparr> m_id := of_nat (length (m_chunks x)) \<rparr>
            \<and> length (m_chunks x) < unat (CHUNKID_MAX :: 'c word)"
    and pos_ok: "\<not> m_primary x \<longrightarrow>
           unat (of_nat (length (m_sequences b)) :: uint32_t) = length (m_sequences b)"
    and chunks': "m_chunks x' =
         p @ [(UpdateTotals (m_trackFirstSamples x) b
                 (sd\<lparr> SequenceDescriptor.m_byteSize := ucast (e - s) \<rparr>))
              \<lparr> m_sequences := m_sequences b
                   @ [sd\<lparr> SequenceDescriptor.m_byteSize := ucast (e - s),
                          m_chunkOffsetBytes := ucast (s - m_offset b) \<rparr>] \<rparr>]"
    and map': "m_keyToSequenceInChunk x' =
         (if m_primary x then m_keyToSequenceInChunk x
          else map_insert (m_keyToSequenceInChunk x) (m_sequence (m_key sd))
                 (ucast (m_id b), of_nat (length (m_sequences b))))"
    by blast
  define c' where "c' = (UpdateTotals (m_trackFirstSamples x) b
                 (sd\<lparr> SequenceDescriptor.m_byteSize := ucast (e - s) \<rparr>))
              \<lparr> m_sequences := m_sequences b
                   @ [sd\<lparr> SequenceDescriptor.m_byteSize := ucast (e - s),
                          m_chunkOffsetBytes := ucast (s - m_offset b) \<rparr>] \<rparr>"
  have new: "m_chunks x' = p @ [c']" by (simp add: chunks' c'_def)
  have seqs': "m_sequences c' = m_sequences b
                   @ [sd\<lparr> SequenceDescriptor.m_byteSize := ucast (e - s),
                          m_chunkOffsetBytes := ucast (s - m_offset b) \<rparr>]"
    by (simp add: c'_def)
  from shape ids have id_b: "unat (m_id b) = length p"
    by (auto simp: nth_append unat_new_id)
  have old: "unat cid < length (m_chunks x')
       \<and> unat pos < length (m_sequences (m_chunks x' ! unat cid))
       \<and> m_sequence (m_key (m_sequences (m_chunks x' ! unat cid) ! unat pos)) = k"
    if "m_keyToSequenceInChunk x k = Some (cid, pos)" for k cid pos
  proof -
    from inv that have o: "unat cid < length (m_chunks x)"
      "unat pos < length (m_sequences (m_chunks x ! unat cid))"
      "m_sequence (m_key (m_sequences (m_chunks x ! unat cid) ! unat pos)) = k"
      by blast+
    from shape show ?thesis
    proof
      assume same: "m_chunks x = p @ [b]"
      show ?thesis
      proof (cases "unat cid < length p")
        case True
        with o same show ?thesis by (simp add: new nth_append)
      next
        case False
        with o same have "unat cid = length p" by simp
        with o same show ?thesis by (simp add: new seqs' nth_append)
      qed
    next
      assume "p = m_chunks x \<and> b = ChunkDescriptor_ctor\<lparr> m_id := of_nat (length (m_chunks x)) \<rparr>
            \<and> length (m_chunks x) < unat (CHUNKID_MAX :: 'c word)"
      with o show ?thesis by (simp add: new nth_append)
    qed
  qed
  show ?thesis
  proof (intro allI impI)
    fix k cid pos
    assume entry: "m_keyToSequenceInChunk x' k = Some (cid, pos)"
    show "unat cid < length (m_chunks x')
       \<and> unat pos < length (m_sequences (m_chunks x' ! unat cid))
       \<and> m_sequence (m_key (m_sequences (m_chunks x' ! unat cid) ! unat pos)) = k"
    proof (cases "m_keyToSequenceInChunk x k = Some (cid, pos)")
      case True
      then show ?thesis by (rule old)
    next
      case False
      with entry map' have sec: "\<not> m_primary x" and k: "k = m_sequence (m_key sd)"
        and cid: "cid = ucast (m_id b)" and pos: "pos = of_nat (length (m_sequences b))"
        by (auto simp: map_insert_apply split: if_splits)
      from cid id_b have "unat cid = length p"
        by (simp add: unat_ucast_id32 [OF width])
      moreover from pos pos_ok sec have "unat pos = length (m_sequences b)" by simp
      ultimately show ?thesis by (simp add: new seqs' k)
    qed
  qed
qed

lemma key_map_invariant:
  fixes idx :: "('c::len) Index"
  assumes width: "LENGTH('c) \<le> 32"
    and built: "BuildIndex max_size chunkSize primary track sizeInBytes calls = Some idx"
  shows "\<forall>k cid pos. m_keyToSequenceInChunk idx k = Some (cid, pos) \<longrightarrow>
         unat cid < length (m_chunks idx)
       \<and> unat pos < length (m_sequences (m_chunks idx ! unat cid))
       \<and> m_sequence (m_key (m_sequences (m_chunks idx ! unat cid) ! unat pos)) = k"
proof -
  let ?P = "\<lambda>x :: 'c Index.
      (m_chunks x \<noteq> [] \<and> length (m_chunks x) \<le> unat (CHUNKID_MAX :: 'c word)
         \<and> (\<forall>i < length (m_chunks x). unat (m_id (m_chunks x ! i)) = i))
    \<and> (\<forall>k cid pos. m_keyToSequenceInChunk x k = Some (cid, pos) \<longrightarrow>
         unat cid < length (m_chunks x)
       \<and> unat pos < length (m_sequences (m_chunks x ! unat cid))
       \<and> m_sequence (m_key (m_sequences (m_chunks x ! unat cid) ! unat pos)) = k)"
  have "?P idx"
  proof (rule AddSequences_invariant [OF BuildIndex_SomeD [OF built], of ?P])
    show "?P (Reserved (Index_ctor chunkSize primary track))"
      using chunk_ids_Reserve [of chunkSize primary track, where 'c = 'c]
      by (simp add: Reserved_def Index_ctor_def)
  next
    fix x x' :: "'c Index" and sd s e
    assume "?P x" and "AddSequence x sd s e = Inr x'"
    then show "?P x'"
      using chunk_ids_step [of x sd s e x'] key_map_step [OF width, of x sd s e x']
      by blast
  qed
  then show ?thesis by blast
qed

text \<open>
  Every call of a build on a secondary index leaves its key in the map, and later calls
  keep it there.
\<close>

lemma keys_present:
  assumes "AddSequences x calls = Some x'" and "\<not> m_primary x"
  shows "dom (m_keyToSequenceInChunk x) \<subseteq> dom (m_keyToSequenceInChunk x')
       \<and> (\<forall>(sd, s, e) \<in> set calls. m_sequence (m_key sd) \<in> dom (m_keyToSequenceInChunk x'))"
  using assms
proof (induction calls arbitrary: x)
  case Nil
  then show ?case by simp
next
  case (Cons call calls)
  obtain sd s e where call: "call = (sd, s, e)" by (cases call)
  from Cons.prems(1) obtain x1 where step: "AddSequence x sd s e = Inr x1"
    and rest: "AddSequences x1 calls = Some x'"
    by (auto simp: call split: sum.splits)
  from AddSequence_InrD [OF step] Cons.prems(2)
  obtain v where map1: "m_keyToSequenceInChunk x1
        = map_insert (m_keyToSequenceInChunk x) (m_sequence (m_key sd)) v"
    and sec1: "\<not> m_primary x1"
    by auto
  have grow: "dom (m_keyToSequenceInChunk x) \<subseteq> dom (m_keyToSequenceInChunk x1)"
    and here: "m_sequence (m_key sd) \<in> dom (m_keyToSequenceInChunk x1)"
    by (auto simp: map1 map_insert_apply)
  from Cons.IH [OF rest sec1] grow here show ?case
    by (auto simp: call)
qed

lemma primary_map_empty:
  fixes idx :: "('c::len) Index"
  assumes "BuildIndex max_size chunkSize True track sizeInBytes calls = Some idx"
  shows "m_primary idx \<and> m_keyToSequenceInChunk idx = Map.empty"
proof (rule AddSequences_invariant [OF BuildIndex_SomeD [OF assms]])
  show "m_primary (Reserved (Index_ctor chunkSize True track :: 'c Index))
      \<and> m_keyToSequenceInChunk (Reserved (Index_ctor chunkSize True track :: 'c Index)) = Map.empty"
    by (simp add: Reserved_def Index_ctor_def)
next
  fix x x' :: "'c Index" and sd s e
  assume "m_primary x \<and> m_keyToSequenceInChunk x = Map.empty" and "AddSequence x sd s e = Inr x'"
  with AddSequence_InrD [OF this(2)]
  show "m_primary x' \<and> m_keyToSequenceInChunk x' = Map.empty"
    by auto
qed

text \<open>
  Claim C6. In a secondary index built by \<^verbatim>\<open>Reserve\<close> and successful \<^verbatim>\<open>AddSequence\<close> calls,
  the key of every call is in the map, and the pair stored under it names a chunk and a
  position in that chunk where a descriptor with this key is stored. In a primary index
  the map stays empty. The map stores the chunk id as \<^verbatim>\<open>uint32_t\<close>, so \<^verbatim>\<open>ChunkIdType\<close> is
  taken to have at most 32 bits. The statement holds for any list of calls; keys that are
  pairwise distinct are a special case.
\<close>

theorem C6_key_map:
  fixes idx :: "('c::len) Index" and idx' :: "('d::len) Index"
  assumes "LENGTH('c) \<le> 32"
  shows "(BuildIndex max_size chunkSize False track sizeInBytes calls = Some idx \<longrightarrow>
           (\<forall>(sd, s, e) \<in> set calls. \<exists>cid pos.
                m_keyToSequenceInChunk idx (m_sequence (m_key sd)) = Some (cid, pos)
              \<and> unat cid < length (m_chunks idx)
              \<and> unat pos < length (m_sequences (m_chunks idx ! unat cid))
              \<and> m_sequence (m_key (m_sequences (m_chunks idx ! unat cid) ! unat pos))
                  = m_sequence (m_key sd)))
       \<and> (BuildIndex max_size' chunkSize' True track' sizeInBytes' calls' = Some idx' \<longrightarrow>
           m_keyToSequenceInChunk idx' = Map.empty)"
proof (intro conjI impI)
  assume built: "BuildIndex max_size chunkSize False track sizeInBytes calls = Some idx"
  have "\<not> m_primary (Reserved (Index_ctor chunkSize False track :: 'c Index))"
    by (simp add: Reserved_def Index_ctor_def)
  from keys_present [OF BuildIndex_SomeD [OF built] this]
  have present: "\<forall>(sd, s, e) \<in> set calls. m_sequence (m_key sd) \<in> dom (m_keyToSequenceInChunk idx)"
    by simp
  show "\<forall>(sd, s, e) \<in> set calls. \<exists>cid pos.
                m_keyToSequenceInChunk idx (m_sequence (m_key sd)) = Some (cid, pos)
              \<and> unat cid < length (m_chunks idx)
              \<and> unat pos < length (m_sequences (m_chunks idx ! unat cid))
              \<and> m_sequence (m_key (m_sequences (m_chunks idx ! unat cid) ! unat pos))
                  = m_sequence (m_key sd)"
  proof (clarify)
    fix sd s e
    assume "(sd, s, e) \<in> set calls"
    with present obtain cid pos
      where entry: "m_keyToSequenceInChunk idx (m_sequence (m_key sd)) = Some (cid, pos)"
      by fastforce
    with key_map_invariant [OF assms built]
    show "\<exists>cid pos.
                m_keyToSequenceInChunk idx (m_sequence (m_key sd)) = Some (cid, pos)
              \<and> unat cid < length (m_chunks idx)
              \<and> unat pos < length (m_sequences (m_chunks idx ! unat cid))
              \<and> m_sequence (m_key (m_sequences (m_chunks idx ! unat cid) ! unat pos))
                  = m_sequence (m_key sd)"
      by blast
  qed
next
  assume "BuildIndex max_size' chunkSize' True track' sizeInBytes' calls' = Some idx'"
  from primary_map_empty [OF this]
  show "m_keyToSequenceInChunk idx' = Map.empty" by simp
qed


text \<open>
  Two records with the keys 5 and 7 and a chunk size that puts them in two chunks: the key
  7 is found at position 0 of chunk 1.
\<close>

theorem C6_key_map_witness:
  "LENGTH(32) \<le> 32
   \<and> (\<exists>idx :: 32 Index.
        BuildIndex 104811045873349725 10 False False 16 [(record_sd 5, 0, 8), (record_sd 7, 8, 16)] = Some idx
      \<and> m_keyToSequenceInChunk idx 7 = Some (1, 0)
      \<and> (\<forall>(sd, s, e) \<in> set ([(record_sd 5, 0, 8), (record_sd 7, 8, 16)] :: call list). \<exists>cid pos.
                m_keyToSequenceInChunk idx (m_sequence (m_key sd)) = Some (cid, pos)
              \<and> unat cid < length (m_chunks idx)
              \<and> unat pos < length (m_sequences (m_chunks idx ! unat cid))
              \<and> m_sequence (m_key (m_sequences (m_chunks idx ! unat cid) ! unat pos))
                  = m_sequence (m_key sd)))
   \<and> (\<exists>idx' :: 32 Index.
        BuildIndex 104811045873349725 10 True False 16 [(record_sd 5, 0, 8), (record_sd 7, 8, 16)] = Some idx'
      \<and> m_keyToSequenceInChunk idx' = Map.empty)"
proof -
  have w: "LENGTH(32) \<le> 32" by simp
  obtain idx :: "32 Index" where
    b: "BuildIndex 104811045873349725 10 False False 16 [(record_sd 5, 0, 8), (record_sd 7, 8, 16)] = Some idx"
    and m: "m_keyToSequenceInChunk idx 7 = Some (1, 0)"
    by (simp add: run_defs)
  obtain idx' :: "32 Index" where
    b': "BuildIndex 104811045873349725 10 True False 16 [(record_sd 5, 0, 8), (record_sd 7, 8, 16)] = Some idx'"
    by (simp add: run_defs)
  note c = C6_key_map [OF w, of 104811045873349725 10 False 16 "[(record_sd 5, 0, 8), (record_sd 7, 8, 16)]" idx
      104811045873349725 10 False 16 "[(record_sd 5, 0, 8), (record_sd 7, 8, 16)]" idx']
  from b m c [THEN conjunct1, THEN mp, OF b]
  have "\<exists>idx :: 32 Index.
        BuildIndex 104811045873349725 10 False False 16 [(record_sd 5, 0, 8), (record_sd 7, 8, 16)] = Some idx
      \<and> m_keyToSequenceInChunk idx 7 = Some (1, 0)
      \<and> (\<forall>(sd, s, e) \<in> set ([(record_sd 5, 0, 8), (record_sd 7, 8, 16)] :: call list). \<exists>cid pos.
                m_keyToSequenceInChunk idx (m_sequence (m_key sd)) = Some (cid, pos)
              \<and> unat cid < length (m_chunks idx)
              \<and> unat pos < length (m_sequences (m_chunks idx ! unat cid))
              \<and> m_sequence (m_key (m_sequences (m_chunks idx ! unat cid) ! unat pos))
                  = m_sequence (m_key sd))"
    by (intro exI [of _ idx] conjI)
  moreover from b' c [THEN conjunct2, THEN mp, OF b']
  have "\<exists>idx' :: 32 Index.
        BuildIndex 104811045873349725 10 True False 16 [(record_sd 5, 0, 8), (record_sd 7, 8, 16)] = Some idx'
      \<and> m_keyToSequenceInChunk idx' = Map.empty"
    by (intro exI [of _ idx'] conjI)
  ultimately show ?thesis using w by (intro conjI)
qed

section \<open>Calls that fail\<close>

lemma StoreSequence_InlD:
  assumes "StoreSequence x k sd s = Inl (err, x')" and "m_chunks x = p @ [b]" and "k = length p"
  shows "(err = NumberOfSequencesOverflow \<and> \<not> m_primary x
            \<and> m_keyToSequenceInChunk x' = m_keyToSequenceInChunk x
          \<or> err = ChunkSizeOverflow
            \<and> ucast (ucast (s - m_offset b) :: uint32_t) \<noteq> s - m_offset b
            \<and> m_keyToSequenceInChunk x' =
                (if m_primary x then m_keyToSequenceInChunk x
                 else map_insert (m_keyToSequenceInChunk x) (m_sequence (m_key sd))
                        (ucast (m_id b), of_nat (length (m_sequences b)))))
     \<and> m_chunks x' = p @ [UpdateTotals (m_trackFirstSamples x) b sd]
     \<and> m_maxChunkSize x' = m_maxChunkSize x
     \<and> m_primary x' = m_primary x
     \<and> m_trackFirstSamples x' = m_trackFirstSamples x"
  using assms(1) unfolding StoreSequence_back [OF assms(2,3)]
  by (auto simp add: Let_def split: if_splits)

text \<open>
  A call on a non-empty index that throws: either the record size does not fit and
  nothing was written, or a chunk was opened beyond the limit, or the totals of the owning
  chunk \<open>b\<close> were written and the descriptor was not stored.
\<close>

lemma AddSequence_InlD:
  fixes this :: "('c::len) Index"
  assumes fail: "AddSequence this sd0 s e = Inl (err, this')" and nonempty: "m_chunks this \<noteq> []"
  shows "err = SequenceByteSizeOverflow \<and> this' = this
        \<and> ucast (ucast (e - s) :: uint32_t) \<noteq> e - s
     \<or> err = MaximumNumberOfChunksExceeded
        \<and> m_chunks this' = m_chunks this
              @ [ChunkDescriptor_ctor\<lparr> m_id := of_nat (length (m_chunks this)) \<rparr>]
     \<or> (\<exists>p b.
          (m_chunks this = p @ [b]
           \<or> p = m_chunks this
             \<and> b = ChunkDescriptor_ctor\<lparr> m_id := of_nat (length (m_chunks this)) \<rparr>)
        \<and> ucast (ucast (e - s) :: uint32_t) = e - s
        \<and> (err = NumberOfSequencesOverflow \<and> \<not> m_primary this
              \<and> m_keyToSequenceInChunk this' = m_keyToSequenceInChunk this
            \<or> err = ChunkSizeOverflow
              \<and> ucast (ucast (s - m_offset b) :: uint32_t) \<noteq> s - m_offset b
              \<and> m_keyToSequenceInChunk this' =
                  (if m_primary this then m_keyToSequenceInChunk this
                   else map_insert (m_keyToSequenceInChunk this) (m_sequence (m_key sd0))
                          (ucast (m_id b), of_nat (length (m_sequences b)))))
        \<and> m_chunks this' =
            p @ [UpdateTotals (m_trackFirstSamples this) b
                   (sd0\<lparr> SequenceDescriptor.m_byteSize := ucast (e - s) \<rparr>)])"
proof -
  from nonempty obtain pre c where snoc: "m_chunks this = pre @ [c]"
    by (cases "m_chunks this" rule: rev_cases) auto
  define sd where "sd = sd0\<lparr> SequenceDescriptor.m_byteSize := ucast (e - s) \<rparr>"
  define fresh :: "'c ChunkDescriptor"
    where "fresh = ChunkDescriptor_ctor\<lparr> m_id := of_nat (length (m_chunks this)) \<rparr>"
  define this1 where "this1 = this\<lparr> m_chunks := m_chunks this @ [fresh] \<rparr>"
  have chunks1: "m_chunks this1 = m_chunks this @ [fresh]"
    by (simp add: this1_def)
  show ?thesis
  proof (cases "ucast (ucast (e - s) :: uint32_t) = e - s")
    case False
    with fail show ?thesis
      by (auto simp add: AddSequence_back [OF snoc] Let_def)
  next
    case fits: True
    show ?thesis
    proof (cases "0 < ChunkDescriptor.m_byteSize c
                  \<and> m_maxChunkSize this < ChunkDescriptor.m_byteSize c + (e - s)")
      case False
      with fail fits have "StoreSequence this (length pre) sd s = Inl (err, this')"
        by (simp add: AddSequence_back [OF snoc] Let_def sd_def)
      from StoreSequence_InlD [OF this snoc refl] snoc fits
      show ?thesis
        by (intro disjI2 exI [of _ pre] exI [of _ c]) (auto simp add: sd_def)
    next
      case True
      show ?thesis
      proof (cases "unat (CHUNKID_MAX :: 'c word) < length pre + 2")
        case over: True
        with fail fits True show ?thesis
          by (auto simp add: AddSequence_back [OF snoc] Let_def snoc)
      next
        case False
        with fail fits True
        have "StoreSequence this1 (length (m_chunks this)) sd s = Inl (err, this')"
          by (simp add: AddSequence_back [OF snoc] Let_def sd_def this1_def fresh_def snoc)
        from StoreSequence_InlD [OF this chunks1 refl] fits
        show ?thesis
          by (intro disjI2 exI [of _ "m_chunks this"] exI [of _ fresh])
             (auto simp add: sd_def this1_def fresh_def)
      qed
    qed
  qed
qed


lemma UpdateTotals_changes: "UpdateTotals t c sd \<noteq> c"
proof
  assume "UpdateTotals t c sd = c"
  then have "m_numberOfSequences (UpdateTotals t c sd) = m_numberOfSequences c" by simp
  then show False by simp
qed

text \<open>
  Claim C9. On an index with at least one chunk (\<^verbatim>\<open>Reserve\<close> has run, the assertion of
  line 96 holds), a call that throws "Chunk size overflows uint32_t type" leaves the byte
  size, the number of sequences and the number of samples of the owning chunk updated,
  and with them the first-sample table (when tracked), while the sequences of the chunk
  are as before. In a secondary index the call has entered its key in the map: a key that
  was not mapped now has the location made of the id of the owning chunk and the number
  of its sequences, a key that was mapped keeps its location, and no other key is touched.
  The owning chunk is the last chunk of the index, or a chunk fresh from the constructor
  when the call opened one. A call that throws "Sequence byte size overflows uint32_t
  type" leaves the index as it was, and it is the only failure that does.
\<close>

theorem C9_not_atomic:
  fixes this :: "('c::len) Index"
  assumes "m_chunks this \<noteq> []"
  shows "(AddSequence this sd s e = Inl (ChunkSizeOverflow, this') \<longrightarrow>
           (let b = (if length (m_chunks this') = length (m_chunks this)
                     then last (m_chunks this) else ChunkDescriptor_ctor);
                c' = last (m_chunks this')
            in ChunkDescriptor.m_byteSize c' = ChunkDescriptor.m_byteSize b + (e - s)
             \<and> m_numberOfSequences c' = m_numberOfSequences b + 1
             \<and> ChunkDescription.m_numberOfSamples c'
                 = ChunkDescription.m_numberOfSamples b
                   + ucast (SequenceDescriptor.m_numberOfSamples sd)
             \<and> m_sequences c' = m_sequences b
             \<and> (m_trackFirstSamples this \<longrightarrow>
                  m_firstSamples c' = m_firstSamples b @ [ChunkDescription.m_numberOfSamples b])
             \<and> (\<not> m_primary this \<longrightarrow>
                  m_keyToSequenceInChunk this' (m_sequence (m_key sd)) =
                    (case m_keyToSequenceInChunk this (m_sequence (m_key sd)) of
                       None \<Rightarrow> Some (ucast (m_id c'), of_nat (length (m_sequences b)))
                     | Some loc \<Rightarrow> Some loc)
                \<and> (\<forall>k. k \<noteq> m_sequence (m_key sd) \<longrightarrow>
                       m_keyToSequenceInChunk this' k = m_keyToSequenceInChunk this k))
             \<and> (m_primary this \<longrightarrow>
                  m_keyToSequenceInChunk this' = m_keyToSequenceInChunk this)))
       \<and> (AddSequence this sd s e = Inl (SequenceByteSizeOverflow, this') \<longrightarrow> this' = this)
       \<and> (AddSequence this sd s e = Inl (err, this') \<and> err \<noteq> SequenceByteSizeOverflow
           \<longrightarrow> this' \<noteq> this)"
proof (intro conjI impI)
  assume fail: "AddSequence this sd s e = Inl (ChunkSizeOverflow, this')"
  from AddSequence_InlD [OF fail assms] obtain p b where
    shape: "m_chunks this = p @ [b]
           \<or> p = m_chunks this
             \<and> b = ChunkDescriptor_ctor\<lparr> m_id := of_nat (length (m_chunks this)) \<rparr>"
    and fits: "ucast (ucast (e - s) :: uint32_t) = e - s"
    and map': "m_keyToSequenceInChunk this' =
                  (if m_primary this then m_keyToSequenceInChunk this
                   else map_insert (m_keyToSequenceInChunk this) (m_sequence (m_key sd))
                          (ucast (m_id b), of_nat (length (m_sequences b))))"
    and chunks': "m_chunks this' =
            p @ [UpdateTotals (m_trackFirstSamples this) b
                   (sd\<lparr> SequenceDescriptor.m_byteSize := ucast (e - s) \<rparr>)]"
    by auto
  from shape fits show "let b = (if length (m_chunks this') = length (m_chunks this)
                     then last (m_chunks this) else ChunkDescriptor_ctor);
                c' = last (m_chunks this')
            in ChunkDescriptor.m_byteSize c' = ChunkDescriptor.m_byteSize b + (e - s)
             \<and> m_numberOfSequences c' = m_numberOfSequences b + 1
             \<and> ChunkDescription.m_numberOfSamples c'
                 = ChunkDescription.m_numberOfSamples b
                   + ucast (SequenceDescriptor.m_numberOfSamples sd)
             \<and> m_sequences c' = m_sequences b
             \<and> (m_trackFirstSamples this \<longrightarrow>
                  m_firstSamples c' = m_firstSamples b @ [ChunkDescription.m_numberOfSamples b])
             \<and> (\<not> m_primary this \<longrightarrow>
                  m_keyToSequenceInChunk this' (m_sequence (m_key sd)) =
                    (case m_keyToSequenceInChunk this (m_sequence (m_key sd)) of
                       None \<Rightarrow> Some (ucast (m_id c'), of_nat (length (m_sequences b)))
                     | Some loc \<Rightarrow> Some loc)
                \<and> (\<forall>k. k \<noteq> m_sequence (m_key sd) \<longrightarrow>
                       m_keyToSequenceInChunk this' k = m_keyToSequenceInChunk this k))
             \<and> (m_primary this \<longrightarrow>
                  m_keyToSequenceInChunk this' = m_keyToSequenceInChunk this)"
    by (auto simp: chunks' map' Let_def ChunkDescriptor_ctor_def map_insert_apply
          split: option.splits)
next
  assume "AddSequence this sd s e = Inl (SequenceByteSizeOverflow, this')"
  from AddSequence_InlD [OF this assms] show "this' = this" by auto
next
  assume a: "AddSequence this sd s e = Inl (err, this') \<and> err \<noteq> SequenceByteSizeOverflow"
  show "this' \<noteq> this"
  proof
    assume same: "this' = this"
    from AddSequence_InlD [OF conjunct1 [OF a] assms] a same
    show False
      by (auto simp: UpdateTotals_changes UpdateTotals_changes [THEN not_sym])
  qed
qed

text \<open>
  A fresh secondary index with first samples tracked; its map is empty. A record of 8
  bytes with the key 5 at the file offset \<open>2 ^ 32\<close>: the size fits, the offset within the
  chunk does not, and after the failure the key 5 is mapped to position 0 of chunk 0. A
  record of \<open>2 ^ 32\<close> bytes: the size does not fit.
\<close>

theorem C9_not_atomic_witness:
  "raised (Reserve 104811045873349725 (Index_ctor 100 False True :: 32 Index) 16) = None
   \<and> m_chunks
        (index_after (Reserve 104811045873349725 (Index_ctor 100 False True) 16) :: 32 Index) \<noteq> []
   \<and> m_keyToSequenceInChunk
        (index_after (Reserve 104811045873349725 (Index_ctor 100 False True) 16) :: 32 Index) 5 = None
   \<and> (\<exists>this'.
        AddSequence
        (index_after (Reserve 104811045873349725 (Index_ctor 100 False True) 16) :: 32 Index) (record_sd 5) 4294967296 4294967304 = Inl (ChunkSizeOverflow, this')
      \<and> ChunkDescriptor.m_byteSize (last (m_chunks this')) = 8
      \<and> m_numberOfSequences (last (m_chunks this')) = 1
      \<and> ChunkDescription.m_numberOfSamples (last (m_chunks this')) = 1
      \<and> m_sequences (last (m_chunks this')) = []
      \<and> m_firstSamples (last (m_chunks this')) = [0]
      \<and> m_keyToSequenceInChunk this' 5 = Some (0, 0)
      \<and> this' \<noteq>
        (index_after (Reserve 104811045873349725 (Index_ctor 100 False True) 16) :: 32 Index))
   \<and> AddSequence
        (index_after (Reserve 104811045873349725 (Index_ctor 100 False True) 16) :: 32 Index) (record_sd 5) 0 4294967296 = Inl (SequenceByteSizeOverflow,
        (index_after (Reserve 104811045873349725 (Index_ctor 100 False True) 16) :: 32 Index))"
proof -
  define this :: "32 Index"
    where "this = index_after (Reserve 104811045873349725 (Index_ctor 100 False True) 16)"
  have r: "raised (Reserve 104811045873349725 (Index_ctor 100 False True :: 32 Index) 16) = None"
    by (simp add: run_defs)
  have ne: "m_chunks this \<noteq> []"
    and pre: "m_keyToSequenceInChunk this 5 = None" "\<not> m_primary this"
      "m_sequences (last (m_chunks this)) = []"
    by (simp_all add: this_def run_defs)
  obtain this' where
    f1: "AddSequence this (record_sd 5) 4294967296 4294967304 = Inl (ChunkSizeOverflow, this')"
    and v: "ChunkDescriptor.m_byteSize (last (m_chunks this')) = 8"
      "m_numberOfSequences (last (m_chunks this')) = 1"
      "ChunkDescription.m_numberOfSamples (last (m_chunks this')) = 1"
      "m_sequences (last (m_chunks this')) = []"
      "m_firstSamples (last (m_chunks this')) = [0]"
    and l: "length (m_chunks this') = length (m_chunks this)" "m_id (last (m_chunks this')) = 0"
    by (simp add: this_def run_defs)
  have f2: "AddSequence this (record_sd 5) 0 4294967296 = Inl (SequenceByteSizeOverflow, this)"
    by (simp add: this_def run_defs)
  have k: "m_sequence (m_key (record_sd 5)) = 5"
    by (simp add: record_sd_def SequenceDescriptor_ctor_def)
  note c1 = C9_not_atomic [OF ne, of "record_sd 5" 4294967296 4294967304 this' ChunkSizeOverflow]
  from c1 f1 have changed: "this' \<noteq> this" by simp
  from c1 f1 pre l k have entered: "m_keyToSequenceInChunk this' 5 = Some (0, 0)"
    by (simp add: Let_def)
  from f1 v entered changed
  have "\<exists>this'.
        AddSequence this (record_sd 5) 4294967296 4294967304 = Inl (ChunkSizeOverflow, this')
      \<and> ChunkDescriptor.m_byteSize (last (m_chunks this')) = 8
      \<and> m_numberOfSequences (last (m_chunks this')) = 1
      \<and> ChunkDescription.m_numberOfSamples (last (m_chunks this')) = 1
      \<and> m_sequences (last (m_chunks this')) = []
      \<and> m_firstSamples (last (m_chunks this')) = [0]
      \<and> m_keyToSequenceInChunk this' 5 = Some (0, 0)
      \<and> this' \<noteq> this"
    by (intro exI [of _ this'] conjI)
  with r ne pre(1) f2 show ?thesis
    unfolding this_def by (intro conjI)
qed

section \<open>A key that is already in the map\<close>

text \<open>
  Whether and how a call fails does not depend on the contents of the map.
\<close>

lemma StoreSequence_error_map_independent:
  assumes "StoreSequence x k sd s = Inl (err, x')" and "m_chunks x = p @ [b]" and "k = length p"
  shows "\<exists>x0. StoreSequence (x\<lparr> m_keyToSequenceInChunk := m0 \<rparr>) k sd s = Inl (err, x0)"
proof -
  have chunks0: "m_chunks (x\<lparr> m_keyToSequenceInChunk := m0 \<rparr>) = p @ [b]"
    using assms(2) by simp
  from assms(1) show ?thesis
    unfolding StoreSequence_back [OF assms(2,3)] StoreSequence_back [OF chunks0 assms(3)]
    by (auto simp add: Let_def split: if_splits)
qed

lemma AddSequence_error_map_independent:
  fixes this :: "('c::len) Index"
  assumes fail: "AddSequence this sd0 s e = Inl (err, x)"
  shows "\<exists>x0. AddSequence (this\<lparr> m_keyToSequenceInChunk := m0 \<rparr>) sd0 s e = Inl (err, x0)"
proof (cases "m_chunks this" rule: rev_cases)
  case Nil
  with fail show ?thesis
    by (auto simp add: AddSequence_def Let_def split: if_splits)
next
  case (snoc pre c)
  define this0 where "this0 = this\<lparr> m_keyToSequenceInChunk := m0 \<rparr>"
  have snoc0: "m_chunks this0 = pre @ [c]"
    using snoc by (simp add: this0_def)
  define sd where "sd = sd0\<lparr> SequenceDescriptor.m_byteSize := ucast (e - s) \<rparr>"
  define fresh :: "'c ChunkDescriptor"
    where "fresh = ChunkDescriptor_ctor\<lparr> m_id := of_nat (Suc (length pre)) \<rparr>"
  define this1 where "this1 = this\<lparr> m_chunks := pre @ [c, fresh] \<rparr>"
  have chunks1: "m_chunks this1 = (pre @ [c]) @ [fresh]"
    by (simp add: this1_def)
  have this01: "this0\<lparr> m_chunks := pre @ [c, fresh] \<rparr> = this1\<lparr> m_keyToSequenceInChunk := m0 \<rparr>"
    by (simp add: this0_def this1_def)
  have max0: "m_maxChunkSize this0 = m_maxChunkSize this"
    by (simp add: this0_def)
  show ?thesis
  proof (cases "ucast (ucast (e - s) :: uint32_t) = e - s")
    case False
    with fail have "err = SequenceByteSizeOverflow"
      by (auto simp add: AddSequence_back [OF snoc] Let_def)
    with False show ?thesis
      unfolding this0_def [symmetric] by (simp add: AddSequence_back [OF snoc0] Let_def)
  next
    case fits: True
    show ?thesis
    proof (cases "0 < ChunkDescriptor.m_byteSize c
                  \<and> m_maxChunkSize this < ChunkDescriptor.m_byteSize c + (e - s)")
      case False
      with fail fits have "StoreSequence this (length pre) sd s = Inl (err, x)"
        by (simp add: AddSequence_back [OF snoc] Let_def sd_def)
      from StoreSequence_error_map_independent [OF this snoc refl, of m0] False fits
      show ?thesis
        unfolding this0_def [symmetric]
        by (auto simp add: AddSequence_back [OF snoc0] Let_def sd_def max0)
    next
      case True
      show ?thesis
      proof (cases "unat (CHUNKID_MAX :: 'c word) < length pre + 2")
        case over: True
        with fail fits True have "err = MaximumNumberOfChunksExceeded"
          by (auto simp add: AddSequence_back [OF snoc] Let_def)
        with over fits True show ?thesis
          unfolding this0_def [symmetric]
          by (auto simp add: AddSequence_back [OF snoc0] Let_def max0)
      next
        case False
        with fail fits True
        have "StoreSequence this1 (length (pre @ [c])) sd s = Inl (err, x)"
          by (simp add: AddSequence_back [OF snoc] Let_def sd_def this1_def fresh_def
                del: of_nat_Suc)
        from StoreSequence_error_map_independent [OF this chunks1 refl, of m0] False fits True
        show ?thesis
          unfolding this0_def [symmetric]
          by (auto simp add: AddSequence_back [OF snoc0] Let_def sd_def max0 this01
                fresh_def [symmetric] simp del: of_nat_Suc)
      qed
    qed
  qed
qed

text \<open>
  Claim C10. In a secondary index, a call whose key is already in the map raises no error
  of its own: if it fails, the same call fails with the same error on the index with an
  empty map. When it returns, the map is unchanged, so the earlier location stays; the
  descriptor is appended to the owning chunk and counted in the three totals of that
  chunk.
\<close>

theorem C10_duplicate_key:
  fixes this :: "('c::len) Index"
  assumes "\<not> m_primary this"
    and "m_keyToSequenceInChunk this (m_sequence (m_key sd)) = Some loc"
  shows "(AddSequence this sd s e = Inl (err, x) \<longrightarrow>
           (\<exists>x0. AddSequence (this\<lparr> m_keyToSequenceInChunk := Map.empty \<rparr>) sd s e = Inl (err, x0)))
       \<and> (AddSequence this sd s e = Inr this' \<longrightarrow>
             m_keyToSequenceInChunk this' = m_keyToSequenceInChunk this
           \<and> (let b = (if length (m_chunks this') = length (m_chunks this)
                        then last (m_chunks this) else ChunkDescriptor_ctor);
                   c' = last (m_chunks this')
               in m_sequences c' = m_sequences b
                    @ [sd\<lparr> SequenceDescriptor.m_byteSize := ucast (e - s),
                           m_chunkOffsetBytes := ucast (s - m_offset b) \<rparr>]
                \<and> ChunkDescriptor.m_byteSize c' = ChunkDescriptor.m_byteSize b + (e - s)
                \<and> m_numberOfSequences c' = m_numberOfSequences b + 1
                \<and> ChunkDescription.m_numberOfSamples c'
                    = ChunkDescription.m_numberOfSamples b
                      + ucast (SequenceDescriptor.m_numberOfSamples sd)))"
proof (intro conjI impI)
  assume "AddSequence this sd s e = Inl (err, x)"
  then show "\<exists>x0. AddSequence (this\<lparr> m_keyToSequenceInChunk := Map.empty \<rparr>) sd s e = Inl (err, x0)"
    by (rule AddSequence_error_map_independent)
next
  assume step: "AddSequence this sd s e = Inr this'"
  from AddSequence_InrD [OF step] assms show "m_keyToSequenceInChunk this' = m_keyToSequenceInChunk this"
    by (auto simp: map_insert_def)
  from AddSequence_InrD [OF step] obtain p b where
    shape: "m_chunks this = p @ [b] \<or>
            p = m_chunks this \<and> b = ChunkDescriptor_ctor\<lparr> m_id := of_nat (length (m_chunks this)) \<rparr>"
    and fits: "ucast (ucast (e - s) :: uint32_t) = e - s"
    and chunks': "m_chunks this' =
         p @ [(UpdateTotals (m_trackFirstSamples this) b
                 (sd\<lparr> SequenceDescriptor.m_byteSize := ucast (e - s) \<rparr>))
              \<lparr> m_sequences := m_sequences b
                   @ [sd\<lparr> SequenceDescriptor.m_byteSize := ucast (e - s),
                          m_chunkOffsetBytes := ucast (s - m_offset b) \<rparr>] \<rparr>]"
    by blast
  from shape fits show "let b = (if length (m_chunks this') = length (m_chunks this)
                        then last (m_chunks this) else ChunkDescriptor_ctor);
                   c' = last (m_chunks this')
               in m_sequences c' = m_sequences b
                    @ [sd\<lparr> SequenceDescriptor.m_byteSize := ucast (e - s),
                           m_chunkOffsetBytes := ucast (s - m_offset b) \<rparr>]
                \<and> ChunkDescriptor.m_byteSize c' = ChunkDescriptor.m_byteSize b + (e - s)
                \<and> m_numberOfSequences c' = m_numberOfSequences b + 1
                \<and> ChunkDescription.m_numberOfSamples c'
                    = ChunkDescription.m_numberOfSamples b
                      + ucast (SequenceDescriptor.m_numberOfSamples sd)"
    by (auto simp: chunks' Let_def ChunkDescriptor_ctor_def)
qed

text \<open>
  The key 5 twice: the second call returns, the key still points to position 0 of chunk 0,
  and the chunk holds two descriptors with the key 5. A second call with the key 5 and a
  record of \<open>2 ^ 32\<close> bytes fails on the size, as it does with an empty map.
\<close>

theorem C10_duplicate_key_witness:
  "\<exists>this this' x :: 32 Index.
      \<not> m_primary this
    \<and> m_keyToSequenceInChunk this (m_sequence (m_key (record_sd 5))) = Some (0, 0)
    \<and> AddSequence this (record_sd 5) 8 16 = Inr this'
    \<and> m_keyToSequenceInChunk this' = m_keyToSequenceInChunk this
    \<and> map (\<lambda>q. m_sequence (m_key q)) (m_sequences (last (m_chunks this'))) = [5, 5]
    \<and> m_numberOfSequences (last (m_chunks this')) = 2
    \<and> AddSequence this (record_sd 5) 0 4294967296 = Inl (SequenceByteSizeOverflow, x)
    \<and> (\<exists>x0. AddSequence (this\<lparr> m_keyToSequenceInChunk := Map.empty \<rparr>) (record_sd 5) 0 4294967296
           = Inl (SequenceByteSizeOverflow, x0))"
proof -
  obtain this :: "32 Index" where
    b: "BuildIndex 104811045873349725 100 False False 16 [(record_sd 5, 0, 8)] = Some this"
    and sec: "\<not> m_primary this"
    and dup: "m_keyToSequenceInChunk this (m_sequence (m_key (record_sd 5))) = Some (0, 0)"
    by (simp add: run_defs)
  obtain this' :: "32 Index" where
    ok: "AddSequence this (record_sd 5) 8 16 = Inr this'"
    and v: "map (\<lambda>q. m_sequence (m_key q)) (m_sequences (last (m_chunks this'))) = [5, 5]"
      "m_numberOfSequences (last (m_chunks this')) = 2"
    using b by (auto simp add: run_defs)
  obtain x :: "32 Index" where
    bad: "AddSequence this (record_sd 5) 0 4294967296 = Inl (SequenceByteSizeOverflow, x)"
    using b by (auto simp add: run_defs)
  note c1 = C10_duplicate_key [OF sec dup, of 8 16 SequenceByteSizeOverflow x this']
  note c2 = C10_duplicate_key [OF sec dup, of 0 4294967296 SequenceByteSizeOverflow x this']
  from c1 ok have keep: "m_keyToSequenceInChunk this' = m_keyToSequenceInChunk this" by simp
  from c2 bad
  have same: "\<exists>x0. AddSequence (this\<lparr> m_keyToSequenceInChunk := Map.empty \<rparr>) (record_sd 5) 0 4294967296
           = Inl (SequenceByteSizeOverflow, x0)" by simp
  show ?thesis
    apply (rule exI [of _ this], rule exI [of _ this'], rule exI [of _ x])
    using sec dup ok v bad keep same by (intro conjI)
qed

section \<open>The two overflow checks\<close>

lemma unat_ucast_32_64: "unat (ucast (x :: uint32_t) :: size_t) = unat x"
proof -
  have "unat x < 2 ^ LENGTH(32)" by (rule unsigned_less)
  then have "unat x < 2 ^ 64" by simp
  then show ?thesis
    by (simp add: unsigned_ucast_eq take_bit_nat_eq_self)
qed

lemma unat_fits32:
  fixes w :: size_t
  assumes "ucast (ucast w :: uint32_t) = w"
  shows "unat (ucast w :: uint32_t) = unat w"
proof -
  have "unat (ucast (ucast w :: uint32_t) :: size_t) = unat (ucast w :: uint32_t)"
    by (rule unat_ucast_32_64)
  with assms show ?thesis by simp
qed

text \<open>
  A file of one-byte records and a maximal chunk size of one byte: every record after the
  first opens a chunk, so \<open>n\<close> records give \<open>n\<close> chunks, as long as \<open>n\<close> is at most
  \<^verbatim>\<open>CHUNKID_MAX\<close> and the offsets fit in 32 bits.
\<close>

lemma AddSequences_append:
  "AddSequences x (cs @ ds) = (case AddSequences x cs of None \<Rightarrow> None | Some y \<Rightarrow> AddSequences y ds)"
proof (induction cs arbitrary: x)
  case Nil
  then show ?case by simp
next
  case (Cons call cs)
  obtain sd s e where "call = (sd, s, e)" by (cases call)
  with Cons show ?case by (simp split: sum.splits)
qed

lemma fits32I:
  fixes w :: size_t
  assumes "unat w < 2 ^ 32"
  shows "ucast (ucast w :: uint32_t) = w"
proof -
  have "unat (ucast (ucast w :: uint32_t) :: size_t) = unat (ucast w :: uint32_t)"
    by (rule unat_ucast_32_64)
  also have "\<dots> = unat w"
    using assms by (simp add: unsigned_ucast_eq take_bit_nat_eq_self)
  finally show ?thesis by (simp only: word_unat_eq_iff)
qed

lemma one_byte_records_Suc:
  "one_byte_records (Suc n) = one_byte_records n @ [(record_sd (of_nat n), of_nat n, of_nat n + 1)]"
  by (simp add: one_byte_records_def)

lemma one_byte_build:
  assumes "0 < n" and "n \<le> unat (CHUNKID_MAX :: ('c::len) word)" and "n \<le> 2 ^ 32"
  shows "\<exists>idx :: 'c Index.
      AddSequences (Reserved (Index_ctor 1 True False)) (one_byte_records n) = Some idx
    \<and> length (m_chunks idx) = n
    \<and> ChunkDescriptor.m_byteSize (last (m_chunks idx)) = 1
    \<and> m_maxChunkSize idx = 1 \<and> m_primary idx"
  using assms
proof (induction n rule: nat_induct_non_zero)
  case 1
  show ?case
    by (simp add: one_byte_records_def run_defs)
next
  case (Suc n)
  then obtain idx :: "'c Index" where
    built: "AddSequences (Reserved (Index_ctor 1 True False)) (one_byte_records n) = Some idx"
    and len: "length (m_chunks idx) = n"
    and bs: "ChunkDescriptor.m_byteSize (last (m_chunks idx)) = 1"
    and max: "m_maxChunkSize idx = 1" and prim: "m_primary idx"
    by auto
  from len Suc.hyps obtain pre c where snoc: "m_chunks idx = pre @ [c]"
    by (cases "m_chunks idx" rule: rev_cases) auto
  with bs len have c: "ChunkDescriptor.m_byteSize c = 1" and pre: "length pre + 1 = n"
    by auto
  define sd where "sd = (record_sd (of_nat n))\<lparr> SequenceDescriptor.m_byteSize := ucast (of_nat n + 1 - of_nat n :: size_t) \<rparr>"
  define fresh :: "'c ChunkDescriptor"
    where "fresh = ChunkDescriptor_ctor\<lparr> m_id := of_nat (Suc (length pre)) \<rparr>"
  define this1 where "this1 = idx\<lparr> m_chunks := pre @ [c, fresh] \<rparr>"
  have chunks1: "m_chunks this1 = (pre @ [c]) @ [fresh]"
    by (simp add: this1_def)
  from Suc.prems pre have limit: "\<not> unat (CHUNKID_MAX :: 'c word) < length pre + 2"
    by simp
  have step1: "AddSequence idx (record_sd (of_nat n)) (of_nat n) (of_nat n + 1)
      = StoreSequence this1 (length (pre @ [c])) sd (of_nat n)"
    using limit c max
    by (simp add: AddSequence_back [OF snoc] Let_def sd_def this1_def fresh_def del: of_nat_Suc)
  have "unat (of_nat n :: size_t) = n"
    using Suc.prems(2) by (simp add: unat_of_nat)
  with Suc.prems(2) have "unat (of_nat n - m_offset fresh :: size_t) < 2 ^ 32"
    by (simp add: fresh_def ChunkDescriptor_ctor_def)
  then have off: "ucast (ucast (of_nat n - m_offset fresh :: size_t) :: uint32_t) = of_nat n - m_offset fresh"
    by (rule fits32I)
  have prim1: "m_primary this1" using prim by (simp add: this1_def)
  define idx' where "idx' = this1\<lparr> m_chunks := (pre @ [c])
      @ [(UpdateTotals (m_trackFirstSamples this1) fresh sd)
           \<lparr> m_sequences := m_sequences fresh
                @ [sd\<lparr> m_chunkOffsetBytes := ucast (of_nat n - m_offset fresh :: size_t) \<rparr>] \<rparr>] \<rparr>"
  have step2: "StoreSequence this1 (length (pre @ [c])) sd (of_nat n) = Inr idx'"
    unfolding StoreSequence_back [OF chunks1 refl] idx'_def
    using off prim1 by (simp add: Let_def)
  have "length (m_chunks idx') = Suc n"
    and "ChunkDescriptor.m_byteSize (last (m_chunks idx')) = 1"
    and "m_maxChunkSize idx' = 1" and "m_primary idx'"
    using pre max prim
    by (simp_all add: idx'_def this1_def fresh_def sd_def ChunkDescriptor_ctor_def)
  with built step1 step2 show ?case
    by (simp add: one_byte_records_Suc AddSequences_append)
qed

text \<open>
  Claim C5 says that \<^verbatim>\<open>AddSequence\<close> raises an overflow error exactly when the record size
  or the offset within the chunk does not fit in 32 bits, and that otherwise both values
  are stored in the descriptor. As stated it fails where another error comes first. With
  a chunk id of 32 bits, a file of \<open>2 ^ 32\<close> one-byte records and a maximal chunk size of
  one byte, the first \<open>2 ^ 32 - 1\<close> calls return and leave \<^verbatim>\<open>CHUNKID_MAX\<close> chunks. The
  call for the last record has the size 1 and the offset \<open>2 ^ 32 - 1\<close> within its chunk
  (the chunk it opens has the offset 0); both fit, and the call still fails, with the
  chunk-limit error, and stores no descriptor.
\<close>

theorem C5_counterexample:
  "BuildIndex 104811045873349725 1 True False 4294967296 (one_byte_records 4294967295)
     \<noteq> (None :: 32 Index option)
   \<and> raised (AddSequence
        (the (BuildIndex 104811045873349725 1 True False 4294967296 (one_byte_records 4294967295)
                :: 32 Index option))
        (record_sd 4294967295) 4294967295 4294967296)
     = Some MaximumNumberOfChunksExceeded
   \<and> ucast (ucast (4294967296 - 4294967295 :: size_t) :: uint32_t) = (4294967296 - 4294967295 :: size_t)
   \<and> m_offset (last (m_chunks (index_after (AddSequence
        (the (BuildIndex 104811045873349725 1 True False 4294967296 (one_byte_records 4294967295)
                :: 32 Index option))
        (record_sd 4294967295) 4294967295 4294967296)))) = 0
   \<and> ucast (ucast (4294967295 - 0 :: size_t) :: uint32_t) = (4294967295 - 0 :: size_t)
   \<and> m_sequences (last (m_chunks (index_after (AddSequence
        (the (BuildIndex 104811045873349725 1 True False 4294967296 (one_byte_records 4294967295)
                :: 32 Index option))
        (record_sd 4294967295) 4294967295 4294967296)))) = []"
proof -
  have n: "0 < (4294967295 :: nat)" "4294967295 \<le> unat (CHUNKID_MAX :: 32 word)"
      "(4294967295 :: nat) \<le> 2 ^ 32"
    by (simp_all add: unat_CHUNKID_MAX)
  from one_byte_build [OF n] obtain idx :: "32 Index" where
    built: "AddSequences (Reserved (Index_ctor 1 True False)) (one_byte_records 4294967295) = Some idx"
    and len: "length (m_chunks idx) = 4294967295"
    and bs: "ChunkDescriptor.m_byteSize (last (m_chunks idx)) = 1"
    and max: "m_maxChunkSize idx = 1"
    by blast
  have "Reserve 104811045873349725 (Index_ctor 1 True False :: 32 Index) 4294967296
      = Inr (Reserved (Index_ctor 1 True False))"
    by (simp add: Reserve_def ReserveHint_def Index_ctor_def)
  with built have b: "BuildIndex 104811045873349725 1 True False 4294967296
      (one_byte_records 4294967295) = Some idx"
    by (simp add: BuildIndex_def)
  from len obtain pre c where snoc: "m_chunks idx = pre @ [c]"
    by (cases "m_chunks idx" rule: rev_cases) auto
  with bs len have c: "ChunkDescriptor.m_byteSize c = 1" and pre: "length pre = 4294967294"
    by auto
  have call: "AddSequence idx (record_sd 4294967295) 4294967295 4294967296
      = Inl (MaximumNumberOfChunksExceeded,
             idx\<lparr> m_chunks := pre @ [c, ChunkDescriptor_ctor\<lparr> m_id := of_nat (Suc (length pre)) \<rparr>] \<rparr>)"
    using c max pre
    by (simp add: AddSequence_back [OF snoc] Let_def unat_CHUNKID_MAX del: of_nat_Suc)
  show ?thesis
    by (simp add: b call raised_def index_after_def ChunkDescriptor_ctor_def)
qed

text \<open>
  Claim C5, amended. On an index with at least one chunk, a call that raises neither the
  chunk-limit error nor the error on the number of sequences raises one of the two overflow
  errors exactly when the record size \<open>e - s\<close> or the offset \<open>s - chunk.offset\<close> is changed
  by the cast to \<^verbatim>\<open>uint32_t\<close>; \<open>chunk\<close> is the chunk that the call works on, the last
  chunk of the index as the call leaves it. A call that returns has appended to that
  chunk the descriptor with exactly these two values.
\<close>

theorem C5_overflow_checks:
  fixes this :: "('c::len) Index"
  assumes "m_chunks this \<noteq> []"
    and "raised (AddSequence this sd s e) \<noteq> Some MaximumNumberOfChunksExceeded"
    and "raised (AddSequence this sd s e) \<noteq> Some NumberOfSequencesOverflow"
  shows "((raised (AddSequence this sd s e) = Some SequenceByteSizeOverflow
           \<or> raised (AddSequence this sd s e) = Some ChunkSizeOverflow)
          \<longleftrightarrow>
          (ucast (ucast (e - s) :: uint32_t) \<noteq> e - s
           \<or> ucast (ucast (s - m_offset (last (m_chunks (index_after (AddSequence this sd s e)))))
                  :: uint32_t)
               \<noteq> s - m_offset (last (m_chunks (index_after (AddSequence this sd s e))))))
       \<and> (AddSequence this sd s e = Inr this' \<longrightarrow>
             unat (SequenceDescriptor.m_byteSize (last (m_sequences (last (m_chunks this')))))
               = unat (e - s)
           \<and> unat (m_chunkOffsetBytes (last (m_sequences (last (m_chunks this')))))
               = unat (s - m_offset (last (m_chunks this')))
           \<and> last (m_sequences (last (m_chunks this')))
               = sd\<lparr> SequenceDescriptor.m_byteSize := ucast (e - s),
                      m_chunkOffsetBytes := ucast (s - m_offset (last (m_chunks this'))) \<rparr>)"
proof (cases "AddSequence this sd s e")
  case (Inr x)
  from AddSequence_InrD [OF Inr] obtain p b where
    fits: "ucast (ucast (e - s) :: uint32_t) = e - s"
      "ucast (ucast (s - m_offset b) :: uint32_t) = s - m_offset b"
    and chunks': "m_chunks x =
         p @ [(UpdateTotals (m_trackFirstSamples this) b
                 (sd\<lparr> SequenceDescriptor.m_byteSize := ucast (e - s) \<rparr>))
              \<lparr> m_sequences := m_sequences b
                   @ [sd\<lparr> SequenceDescriptor.m_byteSize := ucast (e - s),
                          m_chunkOffsetBytes := ucast (s - m_offset b) \<rparr>] \<rparr>]"
    by blast
  have last': "last (m_chunks x) = (UpdateTotals (m_trackFirstSamples this) b
                 (sd\<lparr> SequenceDescriptor.m_byteSize := ucast (e - s) \<rparr>))
              \<lparr> m_sequences := m_sequences b
                   @ [sd\<lparr> SequenceDescriptor.m_byteSize := ucast (e - s),
                          m_chunkOffsetBytes := ucast (s - m_offset b) \<rparr>] \<rparr>"
    by (simp add: chunks')
  have stored: "unat (SequenceDescriptor.m_byteSize (last (m_sequences (last (m_chunks x)))))
               = unat (e - s)
           \<and> unat (m_chunkOffsetBytes (last (m_sequences (last (m_chunks x)))))
               = unat (s - m_offset (last (m_chunks x)))
           \<and> last (m_sequences (last (m_chunks x)))
               = sd\<lparr> SequenceDescriptor.m_byteSize := ucast (e - s),
                      m_chunkOffsetBytes := ucast (s - m_offset (last (m_chunks x))) \<rparr>"
    using fits by (simp add: last' unat_fits32)
  have "raised (AddSequence this sd s e) = None"
    and "m_offset (last (m_chunks (index_after (AddSequence this sd s e)))) = m_offset b"
    by (simp_all add: Inr raised_def index_after_def last')
  with fits stored show ?thesis
    by (auto simp add: Inr)
next
  case (Inl f)
  obtain err x where f: "f = (err, x)" by (cases f)
  from AddSequence_InlD [OF Inl [unfolded f] assms(1)] assms(2,3)
  show ?thesis
    by (auto simp: Inl f raised_def index_after_def)
qed

text \<open>
  On a fresh index of 32-bit chunk ids: the record of the bytes \<open>2 ^ 32\<close> to \<open>2 ^ 32 + 8\<close>
  raises the overflow error of the offset; the record of the bytes 0 to 8 is stored with
  the size 8 and the offset 0.
\<close>

theorem C5_overflow_checks_witness:
  "raised (Reserve 104811045873349725 (Index_ctor 100 True False :: 32 Index) 16) = None
   \<and> m_chunks (index_after (Reserve 104811045873349725 (Index_ctor 100 True False) 16) :: 32 Index) \<noteq> []
   \<and> raised (AddSequence (index_after (Reserve 104811045873349725 (Index_ctor 100 True False) 16) :: 32 Index)
         (record_sd 5) 4294967296 4294967304) = Some ChunkSizeOverflow
   \<and> ucast (ucast (4294967304 - 4294967296 :: size_t) :: uint32_t)
         = (4294967304 - 4294967296 :: size_t)
   \<and> ucast (ucast (4294967296 - m_offset (last (m_chunks (index_after
            (AddSequence (index_after (Reserve 104811045873349725 (Index_ctor 100 True False) 16) :: 32 Index)
               (record_sd 5) 4294967296 4294967304)))))
                  :: uint32_t)
         \<noteq> 4294967296 - m_offset (last (m_chunks (index_after
            (AddSequence (index_after (Reserve 104811045873349725 (Index_ctor 100 True False) 16) :: 32 Index)
               (record_sd 5) 4294967296 4294967304))))
   \<and> (\<exists>this' :: 32 Index.
        AddSequence (index_after (Reserve 104811045873349725 (Index_ctor 100 True False) 16)) (record_sd 5) 0 8 = Inr this'
      \<and> unat (SequenceDescriptor.m_byteSize (last (m_sequences (last (m_chunks this'))))) = 8
      \<and> unat (m_chunkOffsetBytes (last (m_sequences (last (m_chunks this'))))) = 0)"
proof -
  define this :: "32 Index" where "this = index_after (Reserve 104811045873349725 (Index_ctor 100 True False) 16)"
  have ne: "m_chunks this \<noteq> []"
    by (simp add: this_def run_defs)
  have r1: "raised (AddSequence this (record_sd 5) 4294967296 4294967304) = Some ChunkSizeOverflow"
    by (simp add: this_def run_defs raised_def)
  obtain this' where ok: "AddSequence this (record_sd 5) 0 8 = Inr this'"
    and off: "m_offset (last (m_chunks this')) = 0"
    by (simp add: this_def run_defs)
  then have r2: "raised (AddSequence this (record_sd 5) 0 8) = None"
    by (simp add: raised_def)
  note c1 = C5_overflow_checks [OF ne, of "record_sd 5" 4294967296 4294967304 this']
  note c2 = C5_overflow_checks [OF ne, of "record_sd 5" 0 8 this']
  have size_fits: "ucast (ucast (4294967304 - 4294967296 :: size_t) :: uint32_t)
         = (4294967304 - 4294967296 :: size_t)"
    by simp
  from c1 r1 size_fits have
    "ucast (ucast (4294967296 - m_offset (last (m_chunks (index_after
            (AddSequence this (record_sd 5) 4294967296 4294967304)))))
                  :: uint32_t)
         \<noteq> 4294967296 - m_offset (last (m_chunks (index_after
            (AddSequence this (record_sd 5) 4294967296 4294967304))))"
    by simp
  moreover note size_fits
  moreover from c2 r2 ok off
  have "unat (SequenceDescriptor.m_byteSize (last (m_sequences (last (m_chunks this'))))) = 8
      \<and> unat (m_chunkOffsetBytes (last (m_sequences (last (m_chunks this'))))) = 0"
    by simp
  moreover
  have "raised (Reserve 104811045873349725 (Index_ctor 100 True False :: 32 Index) 16) = None"
    by (simp add: run_defs)
  ultimately show ?thesis
    using ne r1 ok unfolding this_def by blast
qed

section \<open>The cap on the size of a chunk\<close>

lemma fits32_bound:
  fixes d :: size_t
  assumes "ucast (ucast d :: uint32_t) = d"
  shows "unat d < 2 ^ 32"
proof -
  have "unat (ucast d :: uint32_t) < 2 ^ LENGTH(32)" by (rule unsigned_less)
  with unat_fits32 [OF assms] show ?thesis by simp
qed

lemma ucast32_bound: "unat (ucast (q :: uint32_t) :: size_t) < 2 ^ 32"
proof -
  have "unat q < 2 ^ LENGTH(32)" by (rule unsigned_less)
  then show ?thesis by (simp add: unat_ucast_32_64)
qed

lemma small_sum:
  fixes a d :: size_t
  assumes "unat a < 2 ^ 32" and "unat d < 2 ^ 32"
  shows "unat (a + d) = unat a + unat d"
proof -
  from assms have "unat a + unat d < 2 ^ LENGTH(64)" by simp
  then show ?thesis by (simp only: unat_add_lem)
qed

lemma ucast32_zero_iff:
  fixes d :: size_t
  assumes "ucast (ucast d :: uint32_t) = d"
  shows "(ucast d :: uint32_t) = 0 \<longleftrightarrow> d = 0"
  using unat_fits32 [OF assms] by (metis unat_0_iff)

lemma cap_invariant_ctor: "cap_invariant M (ChunkDescriptor_ctor\<lparr> m_id := i \<rparr>)"
  by (simp add: cap_invariant_def ChunkDescriptor_ctor_def)

lemma cap_invariant_enter:
  fixes b :: "('c::len) ChunkDescriptor" and M d :: size_t
  assumes fits: "ucast (ucast d :: uint32_t) = d"
    and inv: "cap_invariant M b"
    and stay: "\<not> (0 < ChunkDescriptor.m_byteSize b \<and> M < ChunkDescriptor.m_byteSize b + d)"
    and size': "SequenceDescriptor.m_byteSize sd' = ucast d"
    and c': "m_sequences c' = m_sequences b @ [sd']"
      "ChunkDescriptor.m_byteSize c' = ChunkDescriptor.m_byteSize b + d"
  shows "cap_invariant M c'"
proof (cases "ChunkDescriptor.m_byteSize b = 0")
  case True
  with inv have zeros: "unat M < 2 ^ 32 \<Longrightarrow> \<forall>q \<in> set (m_sequences b). SequenceDescriptor.m_byteSize q = 0"
    by (simp add: cap_invariant_def)
  show ?thesis
  proof (cases "d \<le> M")
    case True
    with zeros \<open>ChunkDescriptor.m_byteSize b = 0\<close> show ?thesis
      by (auto simp add: cap_invariant_def c' size' ucast32_zero_iff [OF fits])
  next
    case False
    then have "unat M < unat d" by (simp add: word_less_nat_alt not_le)
    with fits32_bound [OF fits] have "unat M < 2 ^ 32" by simp
    from zeros [OF this] have "filter (\<lambda>q. SequenceDescriptor.m_byteSize q \<noteq> 0) (m_sequences b) = []"
      by (simp add: filter_empty_conv)
    moreover from False have "d \<noteq> 0" by auto
    ultimately show ?thesis
      using False \<open>ChunkDescriptor.m_byteSize b = 0\<close> fits
      by (simp add: cap_invariant_def c' size' ucast32_zero_iff [OF fits])
  qed
next
  case nonzero: False
  then have pos: "0 < ChunkDescriptor.m_byteSize b" by (simp add: word_neq_0_conv)
  with stay have le: "ChunkDescriptor.m_byteSize b + d \<le> M" by (simp add: not_less)
  have bM: "ChunkDescriptor.m_byteSize b \<le> M"
  proof (rule ccontr)
    assume over: "\<not> ChunkDescriptor.m_byteSize b \<le> M"
    with inv obtain q :: SequenceDescriptor
      where "ucast (SequenceDescriptor.m_byteSize q) = ChunkDescriptor.m_byteSize b"
      by (auto simp add: cap_invariant_def)
    then have "unat (ChunkDescriptor.m_byteSize b) < 2 ^ 32"
      using ucast32_bound [of "SequenceDescriptor.m_byteSize q"] by simp
    from small_sum [OF this fits32_bound [OF fits]] le over show False
      by (simp add: word_le_nat_alt)
  qed
  have "ChunkDescriptor.m_byteSize b + d \<noteq> 0" if "unat M < 2 ^ 32"
  proof -
    from bM that have "unat (ChunkDescriptor.m_byteSize b) < 2 ^ 32"
      by (simp add: word_le_nat_alt)
    from small_sum [OF this fits32_bound [OF fits]] nonzero show ?thesis
      by (metis add_is_0 unat_0_iff)
  qed
  with le show ?thesis
    by (auto simp add: cap_invariant_def c')
qed

lemma cap_invariant_step:
  fixes x :: "('c::len) Index"
  assumes inv: "m_maxChunkSize x = M \<and> (\<forall>c \<in> set (m_chunks x). cap_invariant M c)"
    and step: "AddSequence x sd s e = Inr x'"
  shows "m_maxChunkSize x' = M \<and> (\<forall>c \<in> set (m_chunks x'). cap_invariant M c)"
proof -
  from AddSequence_InrD [OF step] obtain p b where
    shape: "m_chunks x = p @ [b]
        \<and> \<not> (0 < ChunkDescriptor.m_byteSize b
              \<and> m_maxChunkSize x < ChunkDescriptor.m_byteSize b + (e - s))
      \<or> p = m_chunks x
        \<and> b = ChunkDescriptor_ctor\<lparr> m_id := of_nat (length (m_chunks x)) \<rparr>"
    and fits: "ucast (ucast (e - s) :: uint32_t) = e - s"
    and chunks': "m_chunks x' =
         p @ [(UpdateTotals (m_trackFirstSamples x) b
                 (sd\<lparr> SequenceDescriptor.m_byteSize := ucast (e - s) \<rparr>))
              \<lparr> m_sequences := m_sequences b
                   @ [sd\<lparr> SequenceDescriptor.m_byteSize := ucast (e - s),
                          m_chunkOffsetBytes := ucast (s - m_offset b) \<rparr>] \<rparr>]"
    and max': "m_maxChunkSize x' = m_maxChunkSize x"
    by blast
  define c' where "c' = (UpdateTotals (m_trackFirstSamples x) b
                 (sd\<lparr> SequenceDescriptor.m_byteSize := ucast (e - s) \<rparr>))
              \<lparr> m_sequences := m_sequences b
                   @ [sd\<lparr> SequenceDescriptor.m_byteSize := ucast (e - s),
                          m_chunkOffsetBytes := ucast (s - m_offset b) \<rparr>] \<rparr>"
  have new: "m_chunks x' = p @ [c']" by (simp add: chunks' c'_def)
  from shape inv have old: "\<forall>c \<in> set p. cap_invariant M c" by auto
  from shape inv have b: "cap_invariant M b"
    by (auto simp: cap_invariant_ctor)
  from shape inv have stay: "\<not> (0 < ChunkDescriptor.m_byteSize b
              \<and> M < ChunkDescriptor.m_byteSize b + (e - s))"
    by (auto simp: ChunkDescriptor_ctor_def)
  have "cap_invariant M c'"
    by (rule cap_invariant_enter [OF fits b stay,
          of "sd\<lparr> SequenceDescriptor.m_byteSize := ucast (e - s),
                          m_chunkOffsetBytes := ucast (s - m_offset b) \<rparr>"])
       (simp_all add: c'_def fits)
  with old inv max' show ?thesis by (simp add: new)
qed

lemma cap_invariant_built:
  fixes idx :: "('c::len) Index"
  assumes "BuildIndex max_size chunkSize primary track sizeInBytes calls = Some idx"
  shows "m_maxChunkSize idx = chunkSize \<and> (\<forall>c \<in> set (m_chunks idx). cap_invariant chunkSize c)"
proof (rule AddSequences_invariant [OF BuildIndex_SomeD [OF assms]])
  show "m_maxChunkSize (Reserved (Index_ctor chunkSize primary track :: 'c Index)) = chunkSize
    \<and> (\<forall>c \<in> set (m_chunks (Reserved (Index_ctor chunkSize primary track :: 'c Index))).
          cap_invariant chunkSize c)"
    by (simp add: Reserved_def Index_ctor_def cap_invariant_def ChunkDescriptor_ctor_def)
qed (rule cap_invariant_step)

text \<open>
  Claim C3 says that a chunk is larger than the maximal chunk size only if it holds
  exactly one sequence, itself larger than the maximum. The test of line 98 takes a chunk
  of byte size 0 for empty. With a maximal chunk size of 10, a record of no bytes followed
  by a record of 20 bytes gives one chunk of 20 bytes with two sequences.
\<close>

theorem C3_counterexample:
  "raised (Reserve 104811045873349725 (Index_ctor 10 True False :: 32 Index) 20) = None
   \<and> raised (AddSequence (index_after (Reserve 104811045873349725 (Index_ctor 10 True False) 20) :: 32 Index) (record_sd 0) 0 0) = None
   \<and> raised (AddSequence
        (index_after (AddSequence (index_after (Reserve 104811045873349725 (Index_ctor 10 True False) 20) :: 32 Index) (record_sd 0) 0 0))
        (record_sd 1) 0 20) = None
   \<and> m_maxChunkSize (index_after (AddSequence
        (index_after (AddSequence (index_after (Reserve 104811045873349725 (Index_ctor 10 True False) 20) :: 32 Index) (record_sd 0) 0 0))
        (record_sd 1) 0 20)) = 10
   \<and> map ChunkDescriptor.m_byteSize (m_chunks (index_after (AddSequence
        (index_after (AddSequence (index_after (Reserve 104811045873349725 (Index_ctor 10 True False) 20) :: 32 Index) (record_sd 0) 0 0))
        (record_sd 1) 0 20))) = [20]
   \<and> map SequenceDescriptor.m_byteSize (concat (map m_sequences (m_chunks (index_after (AddSequence
        (index_after (AddSequence (index_after (Reserve 104811045873349725 (Index_ctor 10 True False) 20) :: 32 Index) (record_sd 0) 0 0))
        (record_sd 1) 0 20))))) = [0, 20]"
  by (simp add: run_defs raised_def index_after_def)

text \<open>
  Claim C3, amended. In an index built by \<^verbatim>\<open>Reserve\<close> and successful \<^verbatim>\<open>AddSequence\<close> calls,
  a chunk whose byte size exceeds the maximal chunk size holds exactly one sequence of
  non-zero byte size, and the byte size of that sequence exceeds the maximal chunk size.
\<close>

theorem C3_chunk_cap:
  fixes idx :: "('c::len) Index"
  assumes "BuildIndex max_size chunkSize primary track sizeInBytes calls = Some idx"
  shows "\<forall>c \<in> set (m_chunks idx).
           m_maxChunkSize idx < ChunkDescriptor.m_byteSize c \<longrightarrow>
           (\<exists>q. filter (\<lambda>q. SequenceDescriptor.m_byteSize q \<noteq> 0) (m_sequences c) = [q]
                \<and> m_maxChunkSize idx < ucast (SequenceDescriptor.m_byteSize q))"
proof (intro ballI impI)
  fix c
  assume c: "c \<in> set (m_chunks idx)" and over: "m_maxChunkSize idx < ChunkDescriptor.m_byteSize c"
  from cap_invariant_built [OF assms] c
  have max: "m_maxChunkSize idx = chunkSize" and inv: "cap_invariant chunkSize c"
    by simp_all
  from over max have "\<not> ChunkDescriptor.m_byteSize c \<le> chunkSize" by simp
  with inv obtain q :: SequenceDescriptor
    where "filter (\<lambda>q. SequenceDescriptor.m_byteSize q \<noteq> 0) (m_sequences c) = [q]"
      and "ucast (SequenceDescriptor.m_byteSize q) = ChunkDescriptor.m_byteSize c"
    by (auto simp add: cap_invariant_def)
  with over show "\<exists>q. filter (\<lambda>q. SequenceDescriptor.m_byteSize q \<noteq> 0) (m_sequences c) = [q]
                \<and> m_maxChunkSize idx < ucast (SequenceDescriptor.m_byteSize q)"
    by auto
qed

text \<open>
  The two records of the counterexample: the chunk of 20 bytes holds one sequence of
  non-zero size, of 20 bytes.
\<close>

theorem C3_chunk_cap_witness:
  "\<exists>idx :: 32 Index.
      BuildIndex 104811045873349725 10 True False 20 [(record_sd 0, 0, 0), (record_sd 1, 0, 20)] = Some idx
    \<and> m_maxChunkSize idx = 10
    \<and> map ChunkDescriptor.m_byteSize (m_chunks idx) = [20]
    \<and> (\<forall>c \<in> set (m_chunks idx).
           m_maxChunkSize idx < ChunkDescriptor.m_byteSize c \<longrightarrow>
           (\<exists>q. filter (\<lambda>q. SequenceDescriptor.m_byteSize q \<noteq> 0) (m_sequences c) = [q]
                \<and> m_maxChunkSize idx < ucast (SequenceDescriptor.m_byteSize q)))"
proof -
  obtain idx :: "32 Index" where
    b: "BuildIndex 104811045873349725 10 True False 20 [(record_sd 0, 0, 0), (record_sd 1, 0, 20)] = Some idx"
    and v: "m_maxChunkSize idx = 10" "map ChunkDescriptor.m_byteSize (m_chunks idx) = [20]"
    by (simp add: run_defs)
  from C3_chunk_cap [OF b] b v show ?thesis
    by (intro exI [of _ idx] conjI)
qed

section \<open>Sequences within their chunk\<close>

text \<open>
  The offsets of a call are its arguments; \<^verbatim>\<open>AddSequence\<close> does not compare them with the
  size of the chunk. The invariant below holds for the first chunk when the calls cover
  the file from offset 0 without gaps: while the first chunk is the only one, its byte
  size is the file offset reached so far.
\<close>

lemma first_chunk_step:
  fixes x :: "('c::len) Index"
  assumes inv: "m_chunks x \<noteq> [] \<and> m_offset (hd (m_chunks x)) = 0
      \<and> (\<forall>q \<in> set (m_sequences (hd (m_chunks x))).
            unat (m_chunkOffsetBytes q) + unat (SequenceDescriptor.m_byteSize q)
              \<le> unat (ChunkDescriptor.m_byteSize (hd (m_chunks x))))
      \<and> (length (m_chunks x) = 1 \<longrightarrow> ChunkDescriptor.m_byteSize (hd (m_chunks x)) = pos)"
    and le: "pos \<le> e"
    and step: "AddSequence x sd pos e = Inr x'"
  shows "m_chunks x' \<noteq> [] \<and> m_offset (hd (m_chunks x')) = 0
      \<and> (\<forall>q \<in> set (m_sequences (hd (m_chunks x'))).
            unat (m_chunkOffsetBytes q) + unat (SequenceDescriptor.m_byteSize q)
              \<le> unat (ChunkDescriptor.m_byteSize (hd (m_chunks x'))))
      \<and> (length (m_chunks x') = 1 \<longrightarrow> ChunkDescriptor.m_byteSize (hd (m_chunks x')) = e)"
proof -
  from AddSequence_InrD [OF step] obtain p b where
    shape: "m_chunks x = p @ [b] \<or> m_chunks x \<noteq> [] \<and> p = m_chunks x"
    and fits: "ucast (ucast (e - pos) :: uint32_t) = e - pos"
      "ucast (ucast (pos - m_offset b) :: uint32_t) = pos - m_offset b"
    and chunks': "m_chunks x' =
         p @ [(UpdateTotals (m_trackFirstSamples x) b
                 (sd\<lparr> SequenceDescriptor.m_byteSize := ucast (e - pos) \<rparr>))
              \<lparr> m_sequences := m_sequences b
                   @ [sd\<lparr> SequenceDescriptor.m_byteSize := ucast (e - pos),
                          m_chunkOffsetBytes := ucast (pos - m_offset b) \<rparr>] \<rparr>]"
    by blast
  show ?thesis
  proof (cases "p = []")
    case False
    with inv shape show ?thesis
      by (auto simp add: chunks')
  next
    case True
    with shape have only: "m_chunks x = [b]" by auto
    with inv have b: "m_offset b = 0" "ChunkDescriptor.m_byteSize b = pos"
      and old: "\<forall>q \<in> set (m_sequences b).
            unat (m_chunkOffsetBytes q) + unat (SequenceDescriptor.m_byteSize q) \<le> unat pos"
      by auto
    from fits(2) b have fits_pos: "ucast (ucast pos :: uint32_t) = pos" by simp
    have size: "unat (ucast (e - pos) :: uint32_t) = unat e - unat pos"
      using unat_fits32 [OF fits(1)] le by (simp add: unat_sub)
    have off: "unat (ucast pos :: uint32_t) = unat pos"
      by (rule unat_fits32 [OF fits_pos])
    from le have le': "unat pos \<le> unat e" by (simp add: word_le_nat_alt)
    from old le' have old': "\<forall>q \<in> set (m_sequences b).
            unat (m_chunkOffsetBytes q) + unat (SequenceDescriptor.m_byteSize q) \<le> unat e"
      by fastforce
    from True b size off le' old' show ?thesis
      by (simp add: chunks' fits(1))
  qed
qed

lemma first_chunk_invariant:
  fixes x :: "('c::len) Index"
  assumes "AddSequences x calls = Some x'" and "contiguous pos calls"
    and "m_chunks x \<noteq> [] \<and> m_offset (hd (m_chunks x)) = 0
      \<and> (\<forall>q \<in> set (m_sequences (hd (m_chunks x))).
            unat (m_chunkOffsetBytes q) + unat (SequenceDescriptor.m_byteSize q)
              \<le> unat (ChunkDescriptor.m_byteSize (hd (m_chunks x))))
      \<and> (length (m_chunks x) = 1 \<longrightarrow> ChunkDescriptor.m_byteSize (hd (m_chunks x)) = pos)"
  shows "\<forall>q \<in> set (m_sequences (hd (m_chunks x'))).
            unat (m_chunkOffsetBytes q) + unat (SequenceDescriptor.m_byteSize q)
              \<le> unat (ChunkDescriptor.m_byteSize (hd (m_chunks x')))"
  using assms
proof (induction calls arbitrary: x pos)
  case Nil
  then show ?case by simp
next
  case (Cons call calls)
  obtain sd s e where call: "call = (sd, s, e)" by (cases call)
  from Cons.prems(2) have s: "s = pos" and le: "pos \<le> e" and rest_c: "contiguous e calls"
    by (auto simp add: call)
  from Cons.prems(1) obtain x1 where step: "AddSequence x sd pos e = Inr x1"
    and rest: "AddSequences x1 calls = Some x'"
    by (auto simp: call s split: sum.splits)
  from first_chunk_step [OF Cons.prems(3) le step]
  show ?case by (rule Cons.IH [OF rest rest_c])
qed

text \<open>
  Claim C4 says that every stored sequence lies within the byte size of its chunk. As
  stated it fails for a call whose record does not start where the chunk ends: after
  \<^verbatim>\<open>Reserve\<close>, the record of the bytes 100 to 110 is stored with the offset 100 in a chunk
  of 10 bytes.
\<close>

theorem C4_counterexample:
  "raised (Reserve 104811045873349725 (Index_ctor 1000 True False :: 32 Index) 110) = None
   \<and> raised (AddSequence (index_after (Reserve 104811045873349725 (Index_ctor 1000 True False) 110) :: 32 Index) (record_sd 0) 100 110)
     = None
   \<and> map ChunkDescriptor.m_byteSize (m_chunks (index_after
        (AddSequence (index_after (Reserve 104811045873349725 (Index_ctor 1000 True False) 110) :: 32 Index) (record_sd 0) 100 110)))
     = [10]
   \<and> map m_chunkOffsetBytes (concat (map m_sequences (m_chunks (index_after
        (AddSequence (index_after (Reserve 104811045873349725 (Index_ctor 1000 True False) 110) :: 32 Index) (record_sd 0) 100 110)))))
     = [100]
   \<and> map SequenceDescriptor.m_byteSize (concat (map m_sequences (m_chunks (index_after
        (AddSequence (index_after (Reserve 104811045873349725 (Index_ctor 1000 True False) 110) :: 32 Index) (record_sd 0) 100 110)))))
     = [10]"
  by (simp add: run_defs raised_def index_after_def)

text \<open>
  Claim C4, amended. When the calls of a build cover the file from offset 0 without gaps
  (the first record starts at 0, every other record starts where the one before it ends,
  and no record ends before it starts), every sequence \<open>q\<close> stored in the first chunk of
  the index has \<open>0 \<le> q.chunkOffsetBytes\<close> and
  \<open>q.chunkOffsetBytes + q.byteSize \<le> c.byteSize\<close>. The sums are sums of numbers, not of
  32-bit words.
\<close>

theorem C4_first_chunk_bounds:
  fixes idx :: "('c::len) Index"
  assumes "BuildIndex max_size chunkSize primary track sizeInBytes calls = Some idx"
    and "contiguous 0 calls"
  shows "\<forall>q \<in> set (m_sequences (hd (m_chunks idx))).
           0 \<le> unat (m_chunkOffsetBytes q)
         \<and> unat (m_chunkOffsetBytes q) + unat (SequenceDescriptor.m_byteSize q)
             \<le> unat (ChunkDescriptor.m_byteSize (hd (m_chunks idx)))"
proof -
  have "\<forall>q \<in> set (m_sequences (hd (m_chunks idx))).
            unat (m_chunkOffsetBytes q) + unat (SequenceDescriptor.m_byteSize q)
              \<le> unat (ChunkDescriptor.m_byteSize (hd (m_chunks idx)))"
    by (rule first_chunk_invariant [OF BuildIndex_SomeD [OF assms(1)] assms(2)])
       (simp add: Reserved_def Index_ctor_def ChunkDescriptor_ctor_def)
  then show ?thesis by simp
qed

text \<open>
  Two records of 8 bytes, one after the other, in one chunk of 16 bytes.
\<close>

theorem C4_first_chunk_bounds_witness:
  "\<exists>idx :: 32 Index.
      BuildIndex 104811045873349725 100 True False 16 [(record_sd 0, 0, 8), (record_sd 1, 8, 16)] = Some idx
    \<and> contiguous 0 [(record_sd 0, 0, 8), (record_sd 1, 8, 16)]
    \<and> map m_chunkOffsetBytes (m_sequences (hd (m_chunks idx))) = [0, 8]
    \<and> map SequenceDescriptor.m_byteSize (m_sequences (hd (m_chunks idx))) = [8, 8]
    \<and> ChunkDescriptor.m_byteSize (hd (m_chunks idx)) = 16
    \<and> (\<forall>q \<in> set (m_sequences (hd (m_chunks idx))).
           0 \<le> unat (m_chunkOffsetBytes q)
         \<and> unat (m_chunkOffsetBytes q) + unat (SequenceDescriptor.m_byteSize q)
             \<le> unat (ChunkDescriptor.m_byteSize (hd (m_chunks idx))))"
proof -
  obtain idx :: "32 Index" where
    b: "BuildIndex 104811045873349725 100 True False 16 [(record_sd 0, 0, 8), (record_sd 1, 8, 16)] = Some idx"
    and v: "map m_chunkOffsetBytes (m_sequences (hd (m_chunks idx))) = [0, 8]"
      "map SequenceDescriptor.m_byteSize (m_sequences (hd (m_chunks idx))) = [8, 8]"
      "ChunkDescriptor.m_byteSize (hd (m_chunks idx)) = 16"
    by (simp add: run_defs)
  have c: "contiguous 0 [(record_sd 0, 0, 8), (record_sd 1, 8, 16)]"
    by simp
  from C4_first_chunk_bounds [OF b c] b c v show ?thesis
    by (intro exI [of _ idx] conjI)
qed

section \<open>Opening a chunk\<close>

text \<open>
  Claim C2 describes the decision of line 98: when the last chunk is not empty and the
  record does not fit in it, a chunk is opened whose offset is the end of the chunk before
  it and whose id is its position, and the record goes to the new chunk. The code opens
  the chunk, gives it the id and enters the record, but the offset it writes is 0. With a
  maximal chunk size of 10 and a first chunk of 8 bytes at offset 0, the record of the
  bytes 8 to 16 opens chunk 1; the first chunk ends at 8, the new chunk has the offset 0,
  and the record is stored there with the offset 8 within the chunk.
\<close>

theorem C2_opened_chunk:
  "raised (Reserve 104811045873349725 (Index_ctor 10 True False :: 32 Index) 16) = None
   \<and> raised (AddSequence
       (index_after (AddSequence (index_after (Reserve 104811045873349725 (Index_ctor 10 True False) 16) :: 32 Index) (record_sd 0) 0 8))
       (record_sd 1) 8 16) = None
   \<and> map (\<lambda>c. (unat (m_id c), m_offset c, ChunkDescriptor.m_byteSize c,
                map (\<lambda>q. (m_sequence (m_key q), m_chunkOffsetBytes q)) (m_sequences c)))
       (m_chunks (index_after (AddSequence
          (index_after (AddSequence (index_after (Reserve 104811045873349725 (Index_ctor 10 True False) 16) :: 32 Index) (record_sd 0) 0 8))
          (record_sd 1) 8 16)))
     = [(0, 0, 8, [(0, 0)]), (1, 0, 8, [(1, 8)])]"
  by (simp add: run_defs raised_def index_after_def)

end
